theory Spec2Isabelle
  imports Main "HOL-Library.Word"
begin

section \<open>The GIF loader and player of \<open>main.c\<close>\<close>

text \<open>
  The development embeds \<open>load_gif\<close> and \<open>update_gif\<close> of \<open>src/main.c\<close>.
  The byte-level parsing is done by giflib (\<open>DGifOpenFileName\<close>, \<open>DGifSlurp\<close>,
  \<open>DGifSavedExtensionToGCB\<close>) and the pixel buffers belong to SDL; neither library is part
  of the repository, so what they hand to \<open>main.c\<close> is data of the model.

  C \<open>int\<close> values are HOL integers. Two products can leave the range of \<open>int\<close> on
  values that the libraries hand over: the delay of line 50, and the byte offset
  \<open>ty * pitch\<close> of line 80, since the rows of a surface can add up to more than \<open>INT_MAX\<close>
  bytes. For both the overflow is written out, as undefined behaviour. The raster index of
  line 71 is bounded by the size of the raster that giflib allocated. \<open>Uint32\<close> values
  are \<open>32 word\<close>, whose arithmetic wraps.
\<close>

subsection \<open>What giflib hands over\<close>

record GifColorType =
  Red :: "8 word"
  Green :: "8 word"
  Blue :: "8 word"

text \<open>A color map: the array \<open>Colors\<close>; a null pointer to one is \<open>None\<close>.\<close>

record ColorMapObject =
  Colors :: "GifColorType list"

record GifImageDesc =
  Left :: int
  Top :: int
  Width :: int
  Height :: int
  ColorMap :: "ColorMapObject option"

record GraphicsControlBlock =
  DisposalMode :: int
  DelayTime :: int
  TransparentColor :: int

text \<open>
  A saved image with its raster of palette indices (\<open>GifByteType\<close>, one byte each).
  \<open>ExtensionGCB\<close> is the block that \<open>DGifSavedExtensionToGCB\<close> fills in for this image from
  its extension blocks.
\<close>

record SavedImage =
  ImageDesc :: GifImageDesc
  RasterBits :: "8 word list"
  ExtensionGCB :: GraphicsControlBlock

record GifFileType =
  SWidth :: int
  SHeight :: int
  SColorMap :: "ColorMapObject option"
  SavedImages :: "SavedImage list"

definition ImageCount :: "GifFileType \<Rightarrow> int" where
  "ImageCount gif = int (length (SavedImages gif))"

text \<open>
  Modelled from the spec: the disposal modes \<open>None\<close>, \<open>DoNotDispose\<close>,
  \<open>RestoreToBackground\<close> and \<open>RestoreToPrevious\<close> and the absent transparent index are
  macros of \<open>gif_lib.h\<close>, which is not in the repository; they carry giflib's numbering.
\<close>

definition DISPOSAL_UNSPECIFIED :: int where "DISPOSAL_UNSPECIFIED = 0"
definition DISPOSE_DO_NOT :: int where "DISPOSE_DO_NOT = 1"
definition DISPOSE_BACKGROUND :: int where "DISPOSE_BACKGROUND = 2"
definition DISPOSE_PREVIOUS :: int where "DISPOSE_PREVIOUS = 3"
definition NO_TRANSPARENT_COLOR :: int where "NO_TRANSPARENT_COLOR = - 1"

text \<open>
  What \<open>DGifOpenFileName\<close> and the reading of the file in \<open>DGifSlurp\<close> come to: the file
  could not be opened, its records could not be read, or they were read into a
  \<open>GifFileType\<close>.
\<close>

datatype gif_source = OpenFailed int | SlurpFailed | Slurped GifFileType

text \<open>
  Modelled from the spec: decoding a container with zero images fails. The decoder is
  \<open>DGifSlurp\<close> of giflib, which is not in the repository: it ends with a check that
  reports \<open>GIF_ERROR\<close> for a file without an image. \<open>Some gif\<close> stands for \<open>GIF_OK\<close>,
  \<open>None\<close> for \<open>GIF_ERROR\<close>.
\<close>

definition DGifSlurp :: "gif_source \<Rightarrow> GifFileType option" where
  "DGifSlurp src =
     (case src of
        OpenFailed e \<Rightarrow> None
      | SlurpFailed \<Rightarrow> None
      | Slurped gif \<Rightarrow> if ImageCount gif = 0 then None else Some gif)"

subsection \<open>SDL surfaces\<close>

text \<open>
  A pixel of an \<open>SDL_PIXELFORMAT_RGBA32\<close> surface: the four bytes that \<open>SDL_MapRGBA\<close>
  packs into one \<open>Uint32\<close>.
\<close>

datatype pixel = RGBA (px_r: "8 word") (px_g: "8 word") (px_b: "8 word") (px_a: "8 word")

record SDL_Surface =
  surf_w :: int
  surf_h :: int
  surf_pixels :: "pixel list"

text \<open>
  A texture keeps a copy of the surface it was created from. Creating a surface or a
  texture is taken to succeed, as \<open>load_gif\<close> assumes; a new surface is zeroed.
\<close>

type_synonym SDL_Texture = SDL_Surface

text \<open>Rows of a 32-bit surface are \<open>4 * w\<close> bytes long.\<close>

definition pitch :: "SDL_Surface \<Rightarrow> int" where
  "pitch s = 4 * surf_w s"

definition SDL_CreateRGBSurfaceWithFormat :: "int \<Rightarrow> int \<Rightarrow> SDL_Surface" where
  "SDL_CreateRGBSurfaceWithFormat w h =
     \<lparr>surf_w = w, surf_h = h, surf_pixels = replicate (nat (w * h)) (RGBA 0 0 0 0)\<rparr>"

definition SDL_FillRect :: "SDL_Surface \<Rightarrow> pixel \<Rightarrow> SDL_Surface" where
  "SDL_FillRect s c = s\<lparr>surf_pixels := map (\<lambda>_. c) (surf_pixels s)\<rparr>"

text \<open>
  Surfaces with an alpha channel are blitted in \<open>SDL_BLENDMODE_BLEND\<close>:
  \<open>dstRGB = srcRGB * srcA + dstRGB * (1 - srcA)\<close> and \<open>dstA = srcA + dstA * (1 - srcA)\<close>,
  with the alpha scaled to \<open>0..255\<close>.
\<close>

definition blend_channel :: "8 word \<Rightarrow> 8 word \<Rightarrow> 8 word \<Rightarrow> 8 word" where
  "blend_channel a s d = of_nat ((unat s * unat a + unat d * (255 - unat a)) div 255)"

definition blend_pixel :: "pixel \<Rightarrow> pixel \<Rightarrow> pixel" where
  "blend_pixel s d =
     RGBA (blend_channel (px_a s) (px_r s) (px_r d))
          (blend_channel (px_a s) (px_g s) (px_g d))
          (blend_channel (px_a s) (px_b s) (px_b d))
          (blend_channel (px_a s) 255 (px_a d))"

text \<open>
  \<open>SDL_BlitSurface(src, NULL, dst, NULL)\<close>; it changes \<open>dst\<close>. In \<open>load_gif\<close> both
  surfaces have the size of the logical screen.
\<close>

definition SDL_BlitSurface :: "SDL_Surface \<Rightarrow> SDL_Surface \<Rightarrow> SDL_Surface" where
  "SDL_BlitSurface src dst =
     dst\<lparr>surf_pixels := map (\<lambda>(s, d). blend_pixel s d) (zip (surf_pixels src) (surf_pixels dst))\<rparr>"

subsection \<open>The animation\<close>

text \<open>
  \<open>frames\<close> and \<open>delays\<close> come from \<open>malloc\<close>: a slot is \<open>None\<close> until it is assigned.
\<close>

record GIFAnimation =
  frames :: "SDL_Texture option list"
  delays :: "int option list"
  frame_count :: int
  current_frame :: int
  last_update :: "32 word"
  width :: int
  height :: int

text \<open>
  Places where the C program leaves defined behaviour. They are not error returns:
  \<open>load_gif\<close> reports failure only by returning \<open>NULL\<close>.
\<close>

datatype undefined_behaviour =
    SignedOverflow
  | RasterReadOutOfBounds
  | ColorsReadOutOfBounds
  | PixelWriteOutOfBounds
  | DelaysReadOutOfBounds
  | DelaysReadUnassigned
  | RemainderByZero

fun for_loop :: "'i list \<Rightarrow> ('i \<Rightarrow> 's \<Rightarrow> undefined_behaviour + 's) \<Rightarrow> 's \<Rightarrow> undefined_behaviour + 's" where
  "for_loop [] body s = Inr s"
| "for_loop (i # rest) body s =
     (case body i s of Inl u \<Rightarrow> Inl u | Inr s' \<Rightarrow> for_loop rest body s')"

subsection \<open>\<open>load_gif\<close>\<close>

text \<open>The product of two \<open>int\<close> values, undefined when it does not fit an \<open>int\<close>.\<close>

definition INT_MAX :: int where "INT_MAX = 2147483647"

definition int_mul :: "int \<Rightarrow> int \<Rightarrow> undefined_behaviour + int" where
  "int_mul a b =
     (if - INT_MAX - 1 \<le> a * b \<and> a * b \<le> INT_MAX then Inr (a * b) else Inl SignedOverflow)"

text \<open>Line 50: the delay stored for a frame, in milliseconds.\<close>

definition frame_delay :: "GraphicsControlBlock \<Rightarrow> undefined_behaviour + int" where
  "frame_delay gcb = (if DelayTime gcb > 0 then int_mul (DelayTime gcb) 10 else Inr 100)"

text \<open>Line 52: the color map used for a frame.\<close>

definition select_color_map :: "GifFileType \<Rightarrow> SavedImage \<Rightarrow> ColorMapObject option" where
  "select_color_map gif frame =
     (case SColorMap gif of Some m \<Rightarrow> Some m | None \<Rightarrow> ColorMap (ImageDesc frame))"

text \<open>Lines 59 to 66: the surface a frame is drawn on.\<close>

definition new_frame_surface :: "int \<Rightarrow> int \<Rightarrow> nat \<Rightarrow> GraphicsControlBlock \<Rightarrow> SDL_Surface \<Rightarrow> SDL_Surface" where
  "new_frame_surface w h i gcb base_surface =
     (let frame_surface = SDL_FillRect (SDL_CreateRGBSurfaceWithFormat w h) (RGBA 0 0 0 0)
      in if i > 0 \<and> DisposalMode gcb = DISPOSE_DO_NOT
         then SDL_BlitSurface base_surface frame_surface
         else frame_surface)"

text \<open>
  Lines 71 to 79: what the loop body decides for raster position \<open>(x, y)\<close>: nothing
  (\<open>None\<close>: the index is the transparent one, or the target fails the test of line 77), or a
  pixel to store at \<open>(tx, ty)\<close>.
\<close>

definition pixel_to_write ::
  "ColorMapObject \<Rightarrow> SavedImage \<Rightarrow> GraphicsControlBlock \<Rightarrow> SDL_Surface \<Rightarrow> int \<Rightarrow> int
    \<Rightarrow> undefined_behaviour + (int \<times> int \<times> pixel) option" where
  "pixel_to_write color_map frame gcb frame_surface y x =
     (let k = y * Width (ImageDesc frame) + x in
      if k < 0 \<or> int (length (RasterBits frame)) \<le> k then Inl RasterReadOutOfBounds
      else
        let color_index = uint (RasterBits frame ! nat k) in
        if color_index = TransparentColor gcb then Inr None
        else if int (length (Colors color_map)) \<le> color_index then Inl ColorsReadOutOfBounds
        else
          let color = Colors color_map ! nat color_index;
              tx = Left (ImageDesc frame) + x;
              ty = Top (ImageDesc frame) + y
          in if tx < surf_w frame_surface \<and> ty < surf_h frame_surface
             then Inr (Some (tx, ty, RGBA (Red color) (Green color) (Blue color) 255))
             else Inr None)"

text \<open>The \<open>/\<close> of C on \<open>int\<close>: the quotient is truncated towards zero.\<close>

definition c_div :: "int \<Rightarrow> int \<Rightarrow> int" where
  "c_div a b = sgn a * sgn b * (\<bar>a\<bar> div \<bar>b\<bar>)"

text \<open>
  Line 80: the store into the pixel array, at index \<open>ty * pitch / 4 + tx\<close>. The product
  is one of two \<open>int\<close> values.
\<close>

definition store_pixel :: "SDL_Surface \<Rightarrow> int \<Rightarrow> int \<Rightarrow> pixel \<Rightarrow> undefined_behaviour + SDL_Surface" where
  "store_pixel frame_surface tx ty p =
     (case int_mul ty (pitch frame_surface) of
        Inl u \<Rightarrow> Inl u
      | Inr row \<Rightarrow>
          let idx = c_div row 4 + tx in
          if 0 \<le> idx \<and> idx < int (length (surf_pixels frame_surface))
          then Inr (frame_surface\<lparr>surf_pixels := (surf_pixels frame_surface)[nat idx := p]\<rparr>)
          else Inl PixelWriteOutOfBounds)"

definition draw_pixel ::
  "ColorMapObject \<Rightarrow> SavedImage \<Rightarrow> GraphicsControlBlock \<Rightarrow> int \<Rightarrow> int \<Rightarrow> SDL_Surface
    \<Rightarrow> undefined_behaviour + SDL_Surface" where
  "draw_pixel color_map frame gcb y x frame_surface =
     (case pixel_to_write color_map frame gcb frame_surface y x of
        Inl u \<Rightarrow> Inl u
      | Inr None \<Rightarrow> Inr frame_surface
      | Inr (Some (tx, ty, p)) \<Rightarrow> store_pixel frame_surface tx ty p)"

text \<open>Lines 69 to 83: the two nested loops.\<close>

definition draw_image ::
  "ColorMapObject \<Rightarrow> SavedImage \<Rightarrow> GraphicsControlBlock \<Rightarrow> SDL_Surface
    \<Rightarrow> undefined_behaviour + SDL_Surface" where
  "draw_image color_map frame gcb frame_surface =
     for_loop [0..Height (ImageDesc frame) - 1]
       (\<lambda>y. for_loop [0..Width (ImageDesc frame) - 1] (draw_pixel color_map frame gcb y))
       frame_surface"

text \<open>Lines 86 to 88: the base surface kept for the next frame.\<close>

definition update_base :: "GraphicsControlBlock \<Rightarrow> SDL_Surface \<Rightarrow> SDL_Surface \<Rightarrow> SDL_Surface" where
  "update_base gcb frame_surface base_surface =
     (if DisposalMode gcb = DISPOSE_DO_NOT
      then SDL_BlitSurface frame_surface base_surface
      else base_surface)"

record load_state =
  animation :: GIFAnimation
  base_surface :: SDL_Surface

text \<open>Lines 47 to 93: one iteration of the loop over the saved images.\<close>

definition load_frame :: "GifFileType \<Rightarrow> nat \<Rightarrow> load_state \<Rightarrow> undefined_behaviour + load_state" where
  "load_frame gif i st =
     (let frame = SavedImages gif ! i;
          gcb = ExtensionGCB frame
      in case frame_delay gcb of
           Inl u \<Rightarrow> Inl u
         | Inr delay \<Rightarrow>
             let anim = (animation st)\<lparr>delays := (delays (animation st))[i := Some delay]\<rparr>
             in case select_color_map gif frame of
                  None \<Rightarrow> Inr (st\<lparr>animation := anim\<rparr>)
                | Some color_map \<Rightarrow>
                    (case draw_image color_map frame gcb
                            (new_frame_surface (width anim) (height anim) i gcb (base_surface st)) of
                       Inl u \<Rightarrow> Inl u
                     | Inr frame_surface \<Rightarrow>
                         Inr \<lparr>animation = anim\<lparr>frames := (frames anim)[i := Some frame_surface]\<rparr>,
                              base_surface = update_base gcb frame_surface (base_surface st)\<rparr>))"

text \<open>Lines 33 to 44: the animation and the base surface before the loop.\<close>

definition initial_state :: "GifFileType \<Rightarrow> 32 word \<Rightarrow> load_state" where
  "initial_state gif ticks =
     \<lparr>animation =
        \<lparr>frames = replicate (length (SavedImages gif)) None,
         delays = replicate (length (SavedImages gif)) None,
         frame_count = ImageCount gif,
         current_frame = 0,
         last_update = ticks,
         width = SWidth gif,
         height = SHeight gif\<rparr>,
      base_surface = SDL_CreateRGBSurfaceWithFormat (SWidth gif) (SHeight gif)\<rparr>"

text \<open>
  \<open>load_gif\<close>; \<open>ticks\<close> is what \<open>SDL_GetTicks\<close> returns. \<open>Inr None\<close> is the \<open>NULL\<close>
  result: of lines 23 to 26 when the file could not be opened, of lines 28 to 31 when
  \<open>DGifSlurp\<close> does not report \<open>GIF_OK\<close>.
\<close>

definition load_gif :: "gif_source \<Rightarrow> 32 word \<Rightarrow> undefined_behaviour + GIFAnimation option" where
  "load_gif src ticks =
     (case src of
        OpenFailed e \<Rightarrow> Inr None
      | _ \<Rightarrow>
          (case DGifSlurp src of
             None \<Rightarrow> Inr None
           | Some gif \<Rightarrow>
               (case for_loop [0..<length (SavedImages gif)] (load_frame gif)
                       (initial_state gif ticks) of
                  Inl u \<Rightarrow> Inl u
                | Inr st \<Rightarrow> Inr (Some (animation st)))))"

subsection \<open>\<open>update_gif\<close>\<close>

text \<open>The \<open>%\<close> of C: the quotient is truncated towards zero.\<close>

definition c_rem :: "int \<Rightarrow> int \<Rightarrow> int" where
  "c_rem a b = a - b * (sgn a * sgn b * (\<bar>a\<bar> div \<bar>b\<bar>))"

text \<open>The read \<open>animation->delays[animation->current_frame]\<close>.\<close>

definition current_delay :: "GIFAnimation \<Rightarrow> undefined_behaviour + int" where
  "current_delay a =
     (if current_frame a < 0 \<or> int (length (delays a)) \<le> current_frame a
      then Inl DelaysReadOutOfBounds
      else case delays a ! nat (current_frame a) of
             None \<Rightarrow> Inl DelaysReadUnassigned
           | Some d \<Rightarrow> Inr d)"

text \<open>Lines 106 to 108: the body of the loop, on the animation and \<open>elapsed\<close>.\<close>

definition consume_frame :: "32 word \<Rightarrow> int \<Rightarrow> GIFAnimation \<times> 32 word \<Rightarrow> GIFAnimation \<times> 32 word" where
  "consume_frame now d ae =
     (let elapsed = snd ae - word_of_int d
      in ((fst ae)\<lparr>current_frame := c_rem (current_frame (fst ae) + 1) (frame_count (fst ae)),
                   last_update := now - elapsed\<rparr>,
          elapsed))"

text \<open>
  Lines 105 to 109. The comparison converts the \<open>int\<close> delay to \<open>Uint32\<close>. \<open>None\<close> is a
  loop that never ends.
\<close>

partial_function (option) update_loop ::
  "32 word \<Rightarrow> GIFAnimation \<times> 32 word \<Rightarrow> (undefined_behaviour + GIFAnimation) option" where
  "update_loop now ae =
     (case current_delay (fst ae) of
        Inl u \<Rightarrow> Some (Inl u)
      | Inr d \<Rightarrow>
          if word_of_int d \<le> snd ae
          then if frame_count (fst ae) = 0 then Some (Inl RemainderByZero)
               else update_loop now (consume_frame now d ae)
          else Some (Inr (fst ae)))"

declare update_loop.simps [code]

definition update_gif :: "GIFAnimation \<Rightarrow> 32 word \<Rightarrow> (undefined_behaviour + GIFAnimation) option" where
  "update_gif a now = update_loop now (a, now - last_update a)"

subsection \<open>Example files\<close>

definition red :: GifColorType where "red = \<lparr>Red = 255, Green = 0, Blue = 0\<rparr>"
definition blue :: GifColorType where "blue = \<lparr>Red = 0, Green = 0, Blue = 255\<rparr>"
definition green :: GifColorType where "green = \<lparr>Red = 0, Green = 255, Blue = 0\<rparr>"

text \<open>
  Two frames on a 2 by 1 screen with a global table: the first draws red and blue and asks
  to be kept, the second has no disposal mode, a zero delay and only transparent pixels.
\<close>

definition keep_then_clear_gif :: GifFileType where
  "keep_then_clear_gif =
     \<lparr>SWidth = 2, SHeight = 1, SColorMap = Some \<lparr>Colors = [red, blue]\<rparr>,
      SavedImages =
        [\<lparr>ImageDesc = \<lparr>Left = 0, Top = 0, Width = 2, Height = 1, ColorMap = None\<rparr>,
          RasterBits = [0, 1],
          ExtensionGCB = \<lparr>DisposalMode = 1, DelayTime = 5, TransparentColor = - 1\<rparr>\<rparr>,
         \<lparr>ImageDesc = \<lparr>Left = 0, Top = 0, Width = 2, Height = 1, ColorMap = None\<rparr>,
          RasterBits = [1, 1],
          ExtensionGCB = \<lparr>DisposalMode = 0, DelayTime = 0, TransparentColor = 1\<rparr>\<rparr>]\<rparr>"

definition keep_then_clear_animation :: GIFAnimation where
  "keep_then_clear_animation =
     \<lparr>frames =
        [Some \<lparr>surf_w = 2, surf_h = 1, surf_pixels = [RGBA 255 0 0 255, RGBA 0 0 255 255]\<rparr>,
         Some \<lparr>surf_w = 2, surf_h = 1, surf_pixels = [RGBA 0 0 0 0, RGBA 0 0 0 0]\<rparr>],
      delays = [Some 50, Some 100], frame_count = 2, current_frame = 0, last_update = 7,
      width = 2, height = 1\<rparr>"

text \<open>One frame that has a local table beside the global one.\<close>

definition both_tables_gif :: GifFileType where
  "both_tables_gif =
     \<lparr>SWidth = 1, SHeight = 1, SColorMap = Some \<lparr>Colors = [red, blue]\<rparr>,
      SavedImages =
        [\<lparr>ImageDesc = \<lparr>Left = 0, Top = 0, Width = 1, Height = 1,
                        ColorMap = Some \<lparr>Colors = [green, green]\<rparr>\<rparr>,
          RasterBits = [0],
          ExtensionGCB = \<lparr>DisposalMode = 0, DelayTime = 0, TransparentColor = - 1\<rparr>\<rparr>]\<rparr>"

text \<open>No global table; the first frame has no local table either, the second has one.\<close>

definition no_table_gif :: GifFileType where
  "no_table_gif =
     \<lparr>SWidth = 1, SHeight = 1, SColorMap = None,
      SavedImages =
        [\<lparr>ImageDesc = \<lparr>Left = 0, Top = 0, Width = 1, Height = 1, ColorMap = None\<rparr>,
          RasterBits = [0],
          ExtensionGCB = \<lparr>DisposalMode = 0, DelayTime = 3, TransparentColor = - 1\<rparr>\<rparr>,
         \<lparr>ImageDesc = \<lparr>Left = 0, Top = 0, Width = 1, Height = 1,
                        ColorMap = Some \<lparr>Colors = [green]\<rparr>\<rparr>,
          RasterBits = [0],
          ExtensionGCB = \<lparr>DisposalMode = 0, DelayTime = 0, TransparentColor = - 1\<rparr>\<rparr>]\<rparr>"

text \<open>A slurped file without any image.\<close>

definition empty_gif :: GifFileType where
  "empty_gif =
     \<lparr>SWidth = 1, SHeight = 1, SColorMap = Some \<lparr>Colors = [red, blue]\<rparr>, SavedImages = []\<rparr>"


text \<open>
  A screen of 65535 by 8194 pixels, whose rows add up to more than \<open>INT_MAX\<close> bytes, and
  one frame of a single pixel in its last row.
\<close>

definition tall_screen_gif :: GifFileType where
  "tall_screen_gif =
     \<lparr>SWidth = 65535, SHeight = 8194, SColorMap = Some \<lparr>Colors = [red, blue]\<rparr>,
      SavedImages =
        [\<lparr>ImageDesc = \<lparr>Left = 0, Top = 8193, Width = 1, Height = 1, ColorMap = None\<rparr>,
          RasterBits = [0],
          ExtensionGCB = \<lparr>DisposalMode = 0, DelayTime = 0, TransparentColor = - 1\<rparr>\<rparr>]\<rparr>"


text \<open>The state of the loop after the first frame of \<open>keep_then_clear_gif\<close>.\<close>

definition after_first_frame :: load_state where
  "after_first_frame =
     \<lparr>animation =
        \<lparr>frames =
           [Some \<lparr>surf_w = 2, surf_h = 1, surf_pixels = [RGBA 255 0 0 255, RGBA 0 0 255 255]\<rparr>,
            None],
         delays = [Some 50, None], frame_count = 2, current_frame = 0, last_update = 7,
         width = 2, height = 1\<rparr>,
      base_surface = \<lparr>surf_w = 2, surf_h = 1, surf_pixels = [RGBA 255 0 0 255, RGBA 0 0 255 255]\<rparr>\<rparr>"

text \<open>
  Two frames on a 2 by 1 screen: the first covers the screen and asks to be restored to
  the background, the second asks to be kept.
\<close>

definition restore_gif :: GifFileType where
  "restore_gif =
     \<lparr>SWidth = 2, SHeight = 1, SColorMap = Some \<lparr>Colors = [red, blue]\<rparr>,
      SavedImages =
        [\<lparr>ImageDesc = \<lparr>Left = 0, Top = 0, Width = 2, Height = 1, ColorMap = None\<rparr>,
          RasterBits = [0, 1],
          ExtensionGCB = \<lparr>DisposalMode = 2, DelayTime = 5, TransparentColor = - 1\<rparr>\<rparr>,
         \<lparr>ImageDesc = \<lparr>Left = 0, Top = 0, Width = 1, Height = 1, ColorMap = None\<rparr>,
          RasterBits = [1],
          ExtensionGCB = \<lparr>DisposalMode = 1, DelayTime = 5, TransparentColor = - 1\<rparr>\<rparr>]\<rparr>"

text \<open>The state of the loop after the first frame of \<open>restore_gif\<close>.\<close>

definition restore_after_first_frame :: load_state where
  "restore_after_first_frame =
     \<lparr>animation =
        \<lparr>frames =
           [Some \<lparr>surf_w = 2, surf_h = 1, surf_pixels = [RGBA 255 0 0 255, RGBA 0 0 255 255]\<rparr>,
            None],
         delays = [Some 50, None], frame_count = 2, current_frame = 0, last_update = 0,
         width = 2, height = 1\<rparr>,
      base_surface = \<lparr>surf_w = 2, surf_h = 1, surf_pixels = [RGBA 0 0 0 0, RGBA 0 0 0 0]\<rparr>\<rparr>"

subsection \<open>Predicates on surfaces\<close>

text \<open>Two surfaces of the same width, height and number of pixels.\<close>

definition same_shape :: "SDL_Surface \<Rightarrow> SDL_Surface \<Rightarrow> bool" where
  "same_shape s t \<longleftrightarrow>
     surf_w t = surf_w s \<and> surf_h t = surf_h s \<and> length (surf_pixels t) = length (surf_pixels s)"

text \<open>
  The pixels that \<open>load_gif\<close> produces: fully transparent black, or fully opaque. A
  canvas is a surface of a given size made of such pixels.
\<close>

definition clear_or_opaque :: "pixel \<Rightarrow> bool" where
  "clear_or_opaque p \<longleftrightarrow> p = RGBA 0 0 0 0 \<or> px_a p = 255"

definition canvas :: "int \<Rightarrow> int \<Rightarrow> SDL_Surface \<Rightarrow> bool" where
  "canvas w h s \<longleftrightarrow>
     surf_w s = w \<and> surf_h s = h \<and> length (surf_pixels s) = nat (w * h) \<and>
     list_all clear_or_opaque (surf_pixels s)"

text \<open>
  What holds of the state throughout the loop over the saved images: the animation has the
  size of the logical screen and the base surface is a canvas of that size.
\<close>

definition loading :: "GifFileType \<Rightarrow> load_state \<Rightarrow> bool" where
  "loading gif st \<longleftrightarrow>
     width (animation st) = SWidth gif \<and> height (animation st) = SHeight gif \<and>
     canvas (SWidth gif) (SHeight gif) (base_surface st)"

subsection \<open>Predicates on animations\<close>

text \<open>
  A stored delay that the loop of \<open>update_gif\<close> can consume: assigned, at least 10
  milliseconds, and unchanged by the conversion to \<open>Uint32\<close>. An animation is playable
  when it has at least one frame, one such delay for each frame, and a current frame
  among them.
\<close>

definition stored_delay_ok :: "int option \<Rightarrow> bool" where
  "stored_delay_ok d \<longleftrightarrow> (case d of None \<Rightarrow> False | Some v \<Rightarrow> 10 \<le> v \<and> v < 2 ^ 32)"

definition playable :: "GIFAnimation \<Rightarrow> bool" where
  "playable a \<longleftrightarrow>
     1 \<le> frame_count a \<and> int (length (delays a)) = frame_count a \<and>
     0 \<le> current_frame a \<and> current_frame a < frame_count a \<and>
     list_all stored_delay_ok (delays a)"

section \<open>Blending and evaluation\<close>

text \<open>
  A source pixel of alpha \<open>0\<close> leaves the destination as it is; one of alpha \<open>255\<close>
  replaces it.
\<close>

lemma blend_clear_source: "px_a s = 0 \<Longrightarrow> blend_pixel s d = d"
  by (cases d) (simp add: blend_pixel_def blend_channel_def)

lemma blend_opaque_source: "px_a s = 255 \<Longrightarrow> blend_pixel s d = s"
  by (cases s) (simp add: blend_pixel_def blend_channel_def)

lemma replicate_numeral: "replicate (numeral k) x = x # replicate (pred_numeral k) x"
  by (simp add: numeral_eq_Suc)

lemma list_update_Cons_numeral: "(x # xs)[numeral k := v] = x # xs[pred_numeral k := v]"
  by (simp add: numeral_eq_Suc)

lemmas load_defs = load_gif_def DGifSlurp_def c_div_def initial_state_def load_frame_def
  frame_delay_def int_mul_def INT_MAX_def select_color_map_def new_frame_surface_def draw_image_def draw_pixel_def
  pixel_to_write_def store_pixel_def pitch_def update_base_def SDL_FillRect_def
  SDL_BlitSurface_def SDL_CreateRGBSurfaceWithFormat_def ImageCount_def DISPOSE_DO_NOT_def

lemmas eval_simps = load_defs blend_clear_source blend_opaque_source upto.simps upt_rec
  replicate_numeral list_update_Cons_numeral Let_def red_def blue_def green_def

lemma keep_then_clear_loads:
  "load_gif (Slurped keep_then_clear_gif) 7 = Inr (Some keep_then_clear_animation)"
  by (simp add: keep_then_clear_gif_def keep_then_clear_animation_def eval_simps)

lemma no_table_loads:
  "load_gif (Slurped no_table_gif) 0 =
     Inr (Some \<lparr>frames = [None, Some \<lparr>surf_w = 1, surf_h = 1, surf_pixels = [RGBA 0 255 0 255]\<rparr>],
                delays = [Some 30, Some 100], frame_count = 2, current_frame = 0, last_update = 0,
                width = 1, height = 1\<rparr>)"
  by (simp add: no_table_gif_def eval_simps)

section \<open>Properties of the loop over the saved images\<close>

lemma for_loop_Inr_Cons:
  "for_loop (i # rest) body s = Inr s' \<longleftrightarrow>
     (\<exists>s1. body i s = Inr s1 \<and> for_loop rest body s1 = Inr s')"
  by (simp split: sum.splits)

text \<open>The delay of line 50, when the product is defined.\<close>

lemma frame_delay_Inr:
  "frame_delay gcb = Inr d \<longleftrightarrow>
     d = (if DelayTime gcb > 0 then DelayTime gcb * 10 else 100) \<and> d \<le> INT_MAX"
  by (auto simp: frame_delay_def int_mul_def INT_MAX_def)

lemma load_frame_animation:
  assumes "load_frame gif i st = Inr st'"
  shows "\<exists>d. frame_delay (ExtensionGCB (SavedImages gif ! i)) = Inr d \<and>
           delays (animation st') = (delays (animation st))[i := Some d]"
    and "frame_count (animation st') = frame_count (animation st)"
    and "current_frame (animation st') = current_frame (animation st)"
    and "width (animation st') = width (animation st)"
    and "height (animation st') = height (animation st)"
    and "length (frames (animation st')) = length (frames (animation st))"
  using assms
  by (auto simp: load_frame_def Let_def split: option.splits sum.splits)

lemma load_frames_delays:
  "for_loop js (load_frame gif) st = Inr st' \<Longrightarrow>
     length (delays (animation st')) = length (delays (animation st)) \<and>
     (\<forall>j < length (delays (animation st)).
        if j \<in> set js
        then \<exists>d. frame_delay (ExtensionGCB (SavedImages gif ! j)) = Inr d \<and>
                 delays (animation st') ! j = Some d
        else delays (animation st') ! j = delays (animation st) ! j)"
proof (induction js arbitrary: st)
  case Nil
  then show ?case by simp
next
  case (Cons i rest)
  from Cons.prems [unfolded for_loop_Inr_Cons]
  obtain s1 where s1: "load_frame gif i st = Inr s1"
    and rest: "for_loop rest (load_frame gif) s1 = Inr st'"
    by blast
  from load_frame_animation(1) [OF s1]
  obtain d where d: "frame_delay (ExtensionGCB (SavedImages gif ! i)) = Inr d"
    and d1: "delays (animation s1) = (delays (animation st))[i := Some d]"
    by blast
  from Cons.IH [OF rest] d d1 show ?case
    by (auto simp: nth_list_update split: if_splits)
qed

lemma load_frames_fields:
  "for_loop js (load_frame gif) st = Inr st' \<Longrightarrow>
     frame_count (animation st') = frame_count (animation st) \<and>
     current_frame (animation st') = current_frame (animation st) \<and>
     width (animation st') = width (animation st) \<and>
     height (animation st') = height (animation st) \<and>
     length (frames (animation st')) = length (frames (animation st))"
proof (induction js arbitrary: st)
  case Nil
  then show ?case by simp
next
  case (Cons i rest)
  from Cons.prems [unfolded for_loop_Inr_Cons]
  obtain s1 where s1: "load_frame gif i st = Inr s1"
    and rest: "for_loop rest (load_frame gif) s1 = Inr st'"
    by blast
  from Cons.IH [OF rest] load_frame_animation(2-6) [OF s1] show ?case
    by simp
qed

text \<open>A frame without a color map leaves its slot of \<open>frames\<close> alone, and so do the others.\<close>

lemma load_frame_frames:
  assumes "load_frame gif i st = Inr st'"
    and "select_color_map gif (SavedImages gif ! j) = None"
  shows "frames (animation st') ! j = frames (animation st) ! j"
proof (cases "i = j")
  case True
  with assms show ?thesis
    by (auto simp: load_frame_def Let_def split: sum.splits)
next
  case False
  with assms(1) show ?thesis
    by (auto simp: load_frame_def Let_def split: option.splits sum.splits)
qed

lemma load_frame_skip:
  "select_color_map gif (SavedImages gif ! i) = None \<Longrightarrow>
   frame_delay (ExtensionGCB (SavedImages gif ! i)) = Inr d \<Longrightarrow>
   load_frame gif i st =
     Inr (st\<lparr>animation := (animation st)\<lparr>delays := (delays (animation st))[i := Some d]\<rparr>\<rparr>)"
  by (simp add: load_frame_def Let_def)

lemma load_frames_skipped_slot:
  "for_loop js (load_frame gif) st = Inr st' \<Longrightarrow>
   select_color_map gif (SavedImages gif ! j) = None \<Longrightarrow>
   frames (animation st') ! j = frames (animation st) ! j"
proof (induction js arbitrary: st)
  case Nil
  then show ?case by simp
next
  case (Cons i rest)
  from Cons.prems(1) [unfolded for_loop_Inr_Cons]
  obtain s1 where s1: "load_frame gif i st = Inr s1"
    and rest: "for_loop rest (load_frame gif) s1 = Inr st'"
    by blast
  have "frames (animation s1) ! j = frames (animation st) ! j"
    using s1 Cons.prems(2) by (rule load_frame_frames)
  with Cons.IH [OF rest Cons.prems(2)] show ?case
    by simp
qed

lemma load_gif_Some:
  "load_gif src ticks = Inr (Some a) \<longleftrightarrow>
     (\<exists>gif st. src = Slurped gif \<and> SavedImages gif \<noteq> [] \<and>
        for_loop [0..<length (SavedImages gif)] (load_frame gif) (initial_state gif ticks) = Inr st \<and>
        a = animation st)"
  by (auto simp: load_gif_def DGifSlurp_def ImageCount_def
      split: gif_source.splits sum.splits if_splits)

text \<open>\<open>load_gif\<close> returns \<open>NULL\<close> exactly when opening or slurping the file failed.\<close>

lemma load_gif_NULL:
  "load_gif src ticks = Inr None \<longleftrightarrow>
     (\<exists>e. src = OpenFailed e) \<or> DGifSlurp src = None"
  by (cases src) (auto simp: load_gif_def DGifSlurp_def split: sum.splits)

lemma load_gif_images: "i < length (SavedImages gif) \<Longrightarrow> load_gif (Slurped gif) ticks \<noteq> Inr None"
  by (auto simp: load_gif_NULL DGifSlurp_def ImageCount_def)

lemma load_gif_stored_delays:
  assumes "load_gif (Slurped gif) ticks = Inr (Some a)"
  shows "length (delays a) = length (SavedImages gif)"
    and "i < length (SavedImages gif) \<Longrightarrow>
         frame_delay (ExtensionGCB (SavedImages gif ! i)) = Inr d \<Longrightarrow> delays a ! i = Some d"
    and "i < length (SavedImages gif) \<Longrightarrow>
         \<exists>d. frame_delay (ExtensionGCB (SavedImages gif ! i)) = Inr d"
proof -
  from assms obtain st where
    run: "for_loop [0..<length (SavedImages gif)] (load_frame gif) (initial_state gif ticks) = Inr st"
    and a: "a = animation st"
    by (auto simp: load_gif_Some)
  have len0: "length (delays (animation (initial_state gif ticks))) = length (SavedImages gif)"
    by (simp add: initial_state_def)
  from load_frames_delays [OF run] len0 a
  show "length (delays a) = length (SavedImages gif)"
    by simp
  from load_frames_delays [OF run] len0 a
  show "i < length (SavedImages gif) \<Longrightarrow>
         frame_delay (ExtensionGCB (SavedImages gif ! i)) = Inr d \<Longrightarrow> delays a ! i = Some d"
    by auto
  from load_frames_delays [OF run] len0 a
  show "i < length (SavedImages gif) \<Longrightarrow>
         \<exists>d. frame_delay (ExtensionGCB (SavedImages gif ! i)) = Inr d"
    by auto
qed

text \<open>The local table of a frame plays no part in drawing it.\<close>

lemma draw_pixel_ignores_local_map:
  "draw_pixel cm (frame\<lparr>ImageDesc := (ImageDesc frame)\<lparr>ColorMap := m\<rparr>\<rparr>) =
   draw_pixel cm frame"
  by (intro ext) (simp add: draw_pixel_def pixel_to_write_def Let_def)

section \<open>Loops\<close>

lemma for_loop_unchanged:
  "(\<And>i. i \<in> set js \<Longrightarrow> body i s = Inr s) \<Longrightarrow> for_loop js body s = Inr s"
  by (induction js) simp_all

lemma for_loop_invariant:
  assumes "for_loop js body s = Inr s'"
    and "P s"
    and "\<And>i t t'. i \<in> set js \<Longrightarrow> P t \<Longrightarrow> body i t = Inr t' \<Longrightarrow> P t'"
  shows "P s'"
  using assms
proof (induction js arbitrary: s)
  case Nil
  then show ?case by simp
next
  case (Cons i rest)
  from Cons.prems(1) [unfolded for_loop_Inr_Cons]
  obtain s1 where s1: "body i s = Inr s1" and rest: "for_loop rest body s1 = Inr s'"
    by blast
  have "P s1"
    using Cons.prems(2) s1 by (auto intro: Cons.prems(3) [of i s s1])
  with rest show ?case
    by (rule Cons.IH) (auto intro: Cons.prems(3))
qed

lemma for_loop_no_fault:
  assumes "P s"
    and "\<And>i t t'. i \<in> set js \<Longrightarrow> P t \<Longrightarrow> body i t = Inr t' \<Longrightarrow> P t'"
    and "\<And>i t. i \<in> set js \<Longrightarrow> P t \<Longrightarrow> body i t \<noteq> Inl u"
  shows "for_loop js body s \<noteq> Inl u"
  using assms
proof (induction js arbitrary: s)
  case Nil
  then show ?case by simp
next
  case (Cons i rest)
  show ?case
  proof (cases "body i s")
    case (Inl v)
    with Cons.prems(3) [of i s] Cons.prems(1) show ?thesis
      by auto
  next
    case (Inr s1)
    have "P s1"
      using Cons.prems(1) Inr by (auto intro: Cons.prems(2) [of i s s1])
    then have "for_loop rest body s1 \<noteq> Inl u"
    proof (rule Cons.IH)
      show "\<And>i t t'. i \<in> set rest \<Longrightarrow> P t \<Longrightarrow> body i t = Inr t' \<Longrightarrow> P t'"
        by (rule Cons.prems(2)) simp_all
      show "\<And>i t. i \<in> set rest \<Longrightarrow> P t \<Longrightarrow> body i t \<noteq> Inl u"
        by (rule Cons.prems(3)) simp_all
    qed
    with Inr show ?thesis
      by simp
  qed
qed

lemma raster_index_in_range:
  assumes "0 \<le> y" "y \<le> H - 1" "0 \<le> x" "x \<le> W - 1"
  shows "0 \<le> y * W + x \<and> y * W + x < W * (H::int)"
proof -
  from assms have W: "0 < W" by simp
  have "y * W \<le> (H - 1) * W"
    using assms(2) W by (intro mult_right_mono) simp_all
  then have "y * W + x < (H - 1) * W + W"
    using assms(4) by simp
  also have "(H - 1) * W + W = W * H"
    by (simp add: algebra_simps)
  finally have "y * W + x < W * H" .
  moreover have "0 \<le> y * W + x"
    using assms(1,3) W by simp
  ultimately show ?thesis by simp
qed

lemma draw_pixel_transparent:
  assumes "0 \<le> y * Width (ImageDesc frame) + x"
    and "y * Width (ImageDesc frame) + x < int (length (RasterBits frame))"
    and "uint (RasterBits frame ! nat (y * Width (ImageDesc frame) + x)) = TransparentColor gcb"
  shows "draw_pixel color_map frame gcb y x frame_surface = Inr frame_surface"
  using assms by (simp add: draw_pixel_def pixel_to_write_def Let_def)

lemma draw_image_all_transparent:
  assumes len: "length (RasterBits frame) = nat (Width (ImageDesc frame) * Height (ImageDesc frame))"
    and all: "\<forall>b \<in> set (RasterBits frame). uint b = TransparentColor gcb"
  shows "draw_image color_map frame gcb frame_surface = Inr frame_surface"
  unfolding draw_image_def
proof (rule for_loop_unchanged, rule for_loop_unchanged)
  fix y x
  assume y: "y \<in> set [0..Height (ImageDesc frame) - 1]"
    and x: "x \<in> set [0..Width (ImageDesc frame) - 1]"
  then have k: "0 \<le> y * Width (ImageDesc frame) + x \<and>
      y * Width (ImageDesc frame) + x < Width (ImageDesc frame) * Height (ImageDesc frame)"
    by (intro raster_index_in_range) simp_all
  with len have lt: "y * Width (ImageDesc frame) + x < int (length (RasterBits frame))"
    by simp
  with k have "RasterBits frame ! nat (y * Width (ImageDesc frame) + x) \<in> set (RasterBits frame)"
    by (intro nth_mem) linarith
  with all have "uint (RasterBits frame ! nat (y * Width (ImageDesc frame) + x)) = TransparentColor gcb"
    by blast
  with k lt show "draw_pixel color_map frame gcb y x frame_surface = Inr frame_surface"
    by (intro draw_pixel_transparent) simp_all
qed

section \<open>Drawing a frame\<close>

lemma pitch_index: "c_div (ty * pitch s) 4 = ty * surf_w s"
proof -
  have "\<bar>ty * (4 * surf_w s)\<bar> div 4 = \<bar>ty * surf_w s\<bar>"
    by (simp add: abs_mult)
  moreover have "sgn (ty * (4 * surf_w s)) = sgn (ty * surf_w s)"
    by (simp add: sgn_mult)
  ultimately show ?thesis
    by (simp add: c_div_def pitch_def mult_sgn_abs)
qed

lemma pixel_to_write_target:
  assumes "pixel_to_write color_map frame gcb frame_surface y x = Inr (Some (tx, ty, p))"
  shows "tx = Left (ImageDesc frame) + x" and "ty = Top (ImageDesc frame) + y"
    and "tx < surf_w frame_surface" and "ty < surf_h frame_surface"
  using assms
  by (auto simp: pixel_to_write_def Let_def split: if_splits)

text \<open>
  A store at a position of the screen, on a surface of \<open>w * h\<close> pixels whose rows add up
  to at most \<open>INT_MAX\<close> bytes.
\<close>

lemma store_pixel_on_screen:
  assumes "0 \<le> tx" "tx < surf_w s" "0 \<le> ty" "ty < surf_h s"
    and "length (surf_pixels s) = nat (surf_w s * surf_h s)"
    and "surf_h s * pitch s \<le> INT_MAX"
  shows "store_pixel s tx ty p =
           Inr (s\<lparr>surf_pixels := (surf_pixels s)[nat (ty * surf_w s + tx) := p]\<rparr>)"
proof -
  from assms(1-4) have idx: "0 \<le> ty * surf_w s + tx \<and> ty * surf_w s + tx < surf_w s * surf_h s"
    by (intro raster_index_in_range) simp_all
  from assms(1,2) have "0 \<le> pitch s"
    by (simp add: pitch_def)
  with assms(3,4) have "0 \<le> ty * pitch s" "ty * pitch s \<le> surf_h s * pitch s"
    by (simp_all add: mult_right_mono)
  with assms(6) have "int_mul ty (pitch s) = Inr (ty * pitch s)"
    by (simp add: int_mul_def INT_MAX_def)
  with idx assms(5) show ?thesis
    by (simp add: store_pixel_def pitch_index Let_def)
qed

lemma store_pixel_shape:
  "store_pixel s tx ty p = Inr s' \<Longrightarrow>
   surf_w s' = surf_w s \<and> surf_h s' = surf_h s \<and> length (surf_pixels s') = length (surf_pixels s)"
  by (auto simp: store_pixel_def Let_def split: if_splits sum.splits)

lemma draw_pixel_shape:
  "draw_pixel color_map frame gcb y x s = Inr s' \<Longrightarrow>
   surf_w s' = surf_w s \<and> surf_h s' = surf_h s \<and> length (surf_pixels s') = length (surf_pixels s)"
  by (auto simp: draw_pixel_def split: sum.splits option.splits dest: store_pixel_shape)

text \<open>
  With \<open>Left\<close> and \<open>Top\<close> not negative, and on a surface of \<open>w * h\<close> pixels whose rows
  add up to at most \<open>INT_MAX\<close> bytes, no store of the drawing loop is undefined.
\<close>

lemma draw_pixel_store_defined:
  assumes "0 \<le> Left (ImageDesc frame)" "0 \<le> Top (ImageDesc frame)" "0 \<le> x" "0 \<le> y"
    and "length (surf_pixels s) = nat (surf_w s * surf_h s)"
    and "surf_h s * pitch s \<le> INT_MAX"
    and "u = PixelWriteOutOfBounds \<or> u = SignedOverflow"
  shows "draw_pixel color_map frame gcb y x s \<noteq> Inl u"
proof (cases "pixel_to_write color_map frame gcb s y x")
  case (Inl v)
  then have "v \<noteq> PixelWriteOutOfBounds" "v \<noteq> SignedOverflow"
    by (auto simp: pixel_to_write_def Let_def split: if_splits)
  with Inl assms(7) show ?thesis
    by (auto simp: draw_pixel_def)
next
  case (Inr w)
  show ?thesis
  proof (cases w)
    case None
    with Inr show ?thesis by (simp add: draw_pixel_def)
  next
    case (Some t)
    obtain tx ty p where t: "t = (tx, ty, p)" by (cases t)
    from Inr Some t have w: "pixel_to_write color_map frame gcb s y x = Inr (Some (tx, ty, p))"
      by simp
    from pixel_to_write_target [OF w] assms(1-4)
    have "0 \<le> tx" "tx < surf_w s" "0 \<le> ty" "ty < surf_h s"
      by simp_all
    then have "store_pixel s tx ty p =
        Inr (s\<lparr>surf_pixels := (surf_pixels s)[nat (ty * surf_w s + tx) := p]\<rparr>)"
      using assms(5,6) by (rule store_pixel_on_screen)
    with w show ?thesis
      by (simp add: draw_pixel_def)
  qed
qed

lemma draw_image_store_defined:
  assumes "0 \<le> Left (ImageDesc frame)" "0 \<le> Top (ImageDesc frame)"
    and "length (surf_pixels s) = nat (surf_w s * surf_h s)"
    and "surf_h s * pitch s \<le> INT_MAX"
    and "u = PixelWriteOutOfBounds \<or> u = SignedOverflow"
  shows "draw_image color_map frame gcb s \<noteq> Inl u"
  unfolding draw_image_def
proof (rule for_loop_no_fault [where P = "same_shape s"])
  show "same_shape s s"
    by (simp add: same_shape_def)
next
  fix y t t'
  assume "for_loop [0..Width (ImageDesc frame) - 1] (draw_pixel color_map frame gcb y) t = Inr t'"
    and "same_shape s t"
  then show "same_shape s t'"
    by (rule for_loop_invariant) (auto simp: same_shape_def dest: draw_pixel_shape)
next
  fix y t
  assume y: "y \<in> set [0..Height (ImageDesc frame) - 1]" and t: "same_shape s t"
  show "for_loop [0..Width (ImageDesc frame) - 1] (draw_pixel color_map frame gcb y) t \<noteq> Inl u"
  proof (rule for_loop_no_fault [where P = "same_shape s"])
    show "same_shape s t" by (rule t)
  next
    fix x v v'
    assume "same_shape s v" "draw_pixel color_map frame gcb y x v = Inr v'"
    then show "same_shape s v'"
      by (auto simp: same_shape_def dest: draw_pixel_shape)
  next
    fix x v
    assume x: "x \<in> set [0..Width (ImageDesc frame) - 1]" and v: "same_shape s v"
    from v assms(3,4) have "length (surf_pixels v) = nat (surf_w v * surf_h v)"
      and "surf_h v * pitch v \<le> INT_MAX"
      by (simp_all add: same_shape_def pitch_def)
    with assms(1,2,5) x y show "draw_pixel color_map frame gcb y x v \<noteq> Inl u"
      by (intro draw_pixel_store_defined) simp_all
  qed
qed

text \<open>
  What the test of line 77 achieves: with \<open>Left\<close> and \<open>Top\<close> not negative every store
  that the loop decides on has its target on the screen, a pixel whose target fails the
  test is skipped, and on a surface of \<open>w * h\<close> pixels whose rows add up to at most
  \<open>INT_MAX\<close> bytes every store is defined and stays in the pixel array.
\<close>

lemma writes_stay_on_screen:
  assumes "0 \<le> Left (ImageDesc frame)" and "0 \<le> Top (ImageDesc frame)"
  shows "(0 \<le> x \<and> 0 \<le> y \<and>
          pixel_to_write color_map frame gcb frame_surface y x = Inr (Some (tx, ty, p)) \<longrightarrow>
            0 \<le> tx \<and> tx < surf_w frame_surface \<and> 0 \<le> ty \<and> ty < surf_h frame_surface) \<and>
         (\<not> (Left (ImageDesc frame) + x < surf_w frame_surface \<and>
              Top (ImageDesc frame) + y < surf_h frame_surface) \<longrightarrow>
            (\<forall>s'. draw_pixel color_map frame gcb y x frame_surface = Inr s' \<longrightarrow> s' = frame_surface) \<and>
            draw_pixel color_map frame gcb y x frame_surface \<noteq> Inl PixelWriteOutOfBounds \<and>
            draw_pixel color_map frame gcb y x frame_surface \<noteq> Inl SignedOverflow) \<and>
         (length (surf_pixels frame_surface) = nat (surf_w frame_surface * surf_h frame_surface) \<and>
          surf_h frame_surface * pitch frame_surface \<le> INT_MAX \<longrightarrow>
            draw_image color_map frame gcb frame_surface \<noteq> Inl PixelWriteOutOfBounds \<and>
            draw_image color_map frame gcb frame_surface \<noteq> Inl SignedOverflow)"
proof (intro conjI impI allI)
  assume h: "0 \<le> x \<and> 0 \<le> y \<and>
          pixel_to_write color_map frame gcb frame_surface y x = Inr (Some (tx, ty, p))"
  then have w: "pixel_to_write color_map frame gcb frame_surface y x = Inr (Some (tx, ty, p))"
    by simp
  from pixel_to_write_target [OF w] assms h
  show "0 \<le> tx" "tx < surf_w frame_surface" "0 \<le> ty" "ty < surf_h frame_surface"
    by simp_all
next
  fix s'
  assume "\<not> (Left (ImageDesc frame) + x < surf_w frame_surface \<and>
              Top (ImageDesc frame) + y < surf_h frame_surface)"
    and "draw_pixel color_map frame gcb y x frame_surface = Inr s'"
  then show "s' = frame_surface"
    by (auto simp: draw_pixel_def pixel_to_write_def Let_def split: if_splits)
next
  assume "\<not> (Left (ImageDesc frame) + x < surf_w frame_surface \<and>
              Top (ImageDesc frame) + y < surf_h frame_surface)"
  then show "draw_pixel color_map frame gcb y x frame_surface \<noteq> Inl PixelWriteOutOfBounds"
    and "draw_pixel color_map frame gcb y x frame_surface \<noteq> Inl SignedOverflow"
    by (auto simp: draw_pixel_def pixel_to_write_def Let_def split: if_splits)
next
  assume h: "length (surf_pixels frame_surface) = nat (surf_w frame_surface * surf_h frame_surface) \<and>
          surf_h frame_surface * pitch frame_surface \<le> INT_MAX"
  with assms show "draw_image color_map frame gcb frame_surface \<noteq> Inl PixelWriteOutOfBounds"
    by (intro draw_image_store_defined) simp_all
  from assms h show "draw_image color_map frame gcb frame_surface \<noteq> Inl SignedOverflow"
    by (intro draw_image_store_defined) simp_all
qed

section \<open>The base surface\<close>

lemma blend_onto_clear: "clear_or_opaque p \<Longrightarrow> blend_pixel p (RGBA 0 0 0 0) = p"
  by (auto simp: clear_or_opaque_def blend_clear_source blend_opaque_source)

lemma blend_clear_or_opaque:
  "clear_or_opaque s \<Longrightarrow> clear_or_opaque d \<Longrightarrow> clear_or_opaque (blend_pixel s d)"
  by (auto simp: clear_or_opaque_def blend_clear_source blend_opaque_source)

lemma canvas_blank: "canvas w h (SDL_CreateRGBSurfaceWithFormat w h)"
  by (simp add: canvas_def SDL_CreateRGBSurfaceWithFormat_def clear_or_opaque_def list_all_iff)

lemma fill_blank:
  "SDL_FillRect (SDL_CreateRGBSurfaceWithFormat w h) (RGBA 0 0 0 0) = SDL_CreateRGBSurfaceWithFormat w h"
  by (simp add: SDL_FillRect_def SDL_CreateRGBSurfaceWithFormat_def)

lemma blit_onto_blank:
  assumes "canvas w h s"
  shows "SDL_BlitSurface s (SDL_CreateRGBSurfaceWithFormat w h) = s"
proof -
  from assms have len: "length (surf_pixels s) = nat (w * h)"
    and ok: "\<forall>p \<in> set (surf_pixels s). clear_or_opaque p"
    and w: "surf_w s = w" and h: "surf_h s = h"
    by (simp_all add: canvas_def list_all_iff)
  have "map (\<lambda>(p, d). blend_pixel p d) (zip (surf_pixels s) (replicate (nat (w * h)) (RGBA 0 0 0 0)))
      = surf_pixels s"
    using len ok by (intro nth_equalityI) (simp_all add: blend_onto_clear)
  with w h show ?thesis
    by (simp add: SDL_BlitSurface_def SDL_CreateRGBSurfaceWithFormat_def)
qed

lemma canvas_blit:
  assumes "canvas w h s" and "canvas w h d"
  shows "canvas w h (SDL_BlitSurface s d)"
proof -
  have "clear_or_opaque (blend_pixel p q)"
    if "(p, q) \<in> set (zip (surf_pixels s) (surf_pixels d))" for p q
  proof -
    from that have "p \<in> set (surf_pixels s)" "q \<in> set (surf_pixels d)"
      by (auto dest: set_zip_leftD set_zip_rightD)
    with assms show ?thesis
      by (auto simp: canvas_def list_all_iff intro: blend_clear_or_opaque)
  qed
  with assms show ?thesis
    by (auto simp: canvas_def SDL_BlitSurface_def list_all_iff)
qed

text \<open>Lines 59 to 66 on a base surface that is a canvas of the screen's size.\<close>

lemma new_frame_surface_canvas:
  assumes "canvas w h base"
  shows "new_frame_surface w h i gcb base =
           (if 0 < i \<and> DisposalMode gcb = DISPOSE_DO_NOT then base
            else SDL_CreateRGBSurfaceWithFormat w h)"
  using blit_onto_blank [OF assms]
  by (simp add: new_frame_surface_def fill_blank)

lemma canvas_store_pixel:
  assumes "canvas w h s" and "store_pixel s tx ty p = Inr s'" and "px_a p = 255"
  shows "canvas w h s'"
proof -
  from assms(2) obtain k where s': "s' = s\<lparr>surf_pixels := (surf_pixels s)[k := p]\<rparr>"
    by (auto simp: store_pixel_def Let_def split: if_splits sum.splits)
  have "set ((surf_pixels s)[k := p]) \<subseteq> insert p (set (surf_pixels s))"
    by (rule set_update_subset_insert)
  with assms(1,3) show ?thesis
    unfolding s' by (auto simp: canvas_def list_all_iff clear_or_opaque_def)
qed

lemma canvas_draw_pixel:
  assumes "canvas w h s" and "draw_pixel color_map frame gcb y x s = Inr s'"
  shows "canvas w h s'"
proof (cases "pixel_to_write color_map frame gcb s y x")
  case (Inl u)
  with assms(2) show ?thesis by (simp add: draw_pixel_def)
next
  case (Inr t)
  show ?thesis
  proof (cases t)
    case None
    with Inr assms show ?thesis by (simp add: draw_pixel_def)
  next
    case (Some q)
    obtain tx ty p where q: "q = (tx, ty, p)" by (cases q)
    from Inr Some q have "px_a p = 255"
      by (auto simp: pixel_to_write_def Let_def split: if_splits)
    moreover from Inr Some q assms(2) have "store_pixel s tx ty p = Inr s'"
      by (simp add: draw_pixel_def)
    ultimately show ?thesis
      using assms(1) by (intro canvas_store_pixel [of w h s tx ty p s']) simp_all
  qed
qed

lemma canvas_draw_image:
  assumes "draw_image color_map frame gcb s = Inr s'" and "canvas w h s"
  shows "canvas w h s'"
  using assms unfolding draw_image_def
proof (rule for_loop_invariant)
  fix y t t'
  assume "for_loop [0..Width (ImageDesc frame) - 1] (draw_pixel color_map frame gcb y) t = Inr t'"
    and "canvas w h t"
  then show "canvas w h t'"
    by (rule for_loop_invariant) (rule canvas_draw_pixel)
qed

lemma loading_initial: "loading gif (initial_state gif ticks)"
  by (simp add: loading_def initial_state_def canvas_blank)

lemma loading_load_frame:
  assumes "loading gif st" and "load_frame gif i st = Inr st'"
  shows "loading gif st'"
proof (cases "select_color_map gif (SavedImages gif ! i)")
  case None
  with assms show ?thesis
    by (auto simp: load_frame_def Let_def loading_def split: sum.splits)
next
  case (Some cm)
  let ?gcb = "ExtensionGCB (SavedImages gif ! i)"
  let ?fs = "new_frame_surface (SWidth gif) (SHeight gif) i ?gcb (base_surface st)"
  from assms(1) have base: "canvas (SWidth gif) (SHeight gif) (base_surface st)"
    and wh: "width (animation st) = SWidth gif" "height (animation st) = SHeight gif"
    by (simp_all add: loading_def)
  from assms(2) Some wh obtain fs where
    draw: "draw_image cm (SavedImages gif ! i) ?gcb ?fs = Inr fs"
    and st': "base_surface st' = update_base ?gcb fs (base_surface st)"
    by (auto simp: load_frame_def Let_def split: sum.splits)
  have "canvas (SWidth gif) (SHeight gif) ?fs"
    using base by (simp add: new_frame_surface_canvas canvas_blank)
  with draw have "canvas (SWidth gif) (SHeight gif) fs"
    by (rule canvas_draw_image)
  with base have "canvas (SWidth gif) (SHeight gif) (base_surface st')"
    unfolding st' by (simp add: update_base_def canvas_blit)
  with load_frame_animation(4,5) [OF assms(2)] wh show ?thesis
    by (simp add: loading_def)
qed

lemma loading_frames:
  assumes "for_loop js (load_frame gif) (initial_state gif ticks) = Inr st"
  shows "loading gif st"
  using assms loading_initial
  by (rule for_loop_invariant) (rule loading_load_frame)

lemma keep_then_clear_first_frame:
  "load_frame keep_then_clear_gif 0 (initial_state keep_then_clear_gif 7) = Inr after_first_frame"
  by (simp add: keep_then_clear_gif_def after_first_frame_def eval_simps)

lemma restore_first_frame:
  "load_frame restore_gif 0 (initial_state restore_gif 0) = Inr restore_after_first_frame"
  by (simp add: restore_gif_def restore_after_first_frame_def eval_simps)

lemma load_frame_base_kept:
  assumes "load_frame gif i st = Inr st'"
    and "DisposalMode (ExtensionGCB (SavedImages gif ! i)) \<noteq> DISPOSE_DO_NOT"
  shows "base_surface st' = base_surface st"
  using assms
  by (auto simp: load_frame_def update_base_def Let_def split: option.splits sum.splits)

section \<open>The loop of \<open>update_gif\<close>\<close>

lemma c_rem_mod: "0 \<le> a \<Longrightarrow> 0 < b \<Longrightarrow> c_rem a b = a mod b"
  by (simp add: c_rem_def sgn_if minus_mult_div_eq_mod)

lemma unat_delay: "10 \<le> d \<Longrightarrow> d < 2 ^ 32 \<Longrightarrow> unat (word_of_int d :: 32 word) = nat d"
  by (simp add: unat_eq_nat_uint uint_word_of_int take_bit_eq_mod)

lemma frame_delay_bounds: "frame_delay gcb = Inr d \<Longrightarrow> 10 \<le> d \<and> d < 2 ^ 32"
  by (auto simp: frame_delay_Inr INT_MAX_def split: if_splits)

lemma playable_current_delay:
  assumes "playable a"
  shows "\<exists>d. current_delay a = Inr d \<and> 10 \<le> d \<and> d < 2 ^ 32"
proof -
  from assms have c: "0 \<le> current_frame a" "current_frame a < int (length (delays a))"
    by (simp_all add: playable_def)
  then have i: "nat (current_frame a) < length (delays a)"
    by linarith
  from assms i have "stored_delay_ok (delays a ! nat (current_frame a))"
    by (simp add: playable_def list_all_length)
  then obtain d where "delays a ! nat (current_frame a) = Some d" "10 \<le> d" "d < 2 ^ 32"
    by (auto simp: stored_delay_ok_def split: option.splits)
  with c show ?thesis
    by (simp add: current_delay_def)
qed

lemma consume_frame_elapsed:
  assumes "10 \<le> d" "d < 2 ^ 32" "word_of_int d \<le> (elapsed :: 32 word)"
  shows "unat (snd (consume_frame now d (a, elapsed))) < unat elapsed"
proof -
  from assms(3) have "unat (elapsed - word_of_int d) = unat elapsed - unat (word_of_int d :: 32 word)"
    by (rule unat_sub)
  moreover from assms(3) have "unat (word_of_int d :: 32 word) \<le> unat elapsed"
    by (simp add: word_le_nat_alt)
  moreover from assms(1,2) have "unat (word_of_int d :: 32 word) = nat d"
    by (rule unat_delay)
  ultimately show ?thesis
    using assms(1) by (simp add: consume_frame_def Let_def)
qed

lemma consume_frame_playable:
  assumes "playable a"
  shows "playable (fst (consume_frame now d (a, elapsed)))"
    and "delays (fst (consume_frame now d (a, elapsed))) = delays a"
    and "frame_count (fst (consume_frame now d (a, elapsed))) = frame_count a"
  using assms
  by (simp_all add: consume_frame_def playable_def c_rem_mod Let_def)

lemma update_loop_returns:
  "playable a \<Longrightarrow>
   \<exists>a'. update_loop now (a, elapsed) = Some (Inr a') \<and> playable a' \<and>
        delays a' = delays a \<and> frame_count a' = frame_count a"
proof (induction "unat elapsed" arbitrary: a elapsed rule: less_induct)
  case less
  from playable_current_delay [OF less.prems]
  obtain d where d: "current_delay a = Inr d" "10 \<le> d" "d < 2 ^ 32"
    by blast
  show ?case
  proof (cases "word_of_int d \<le> elapsed")
    case False
    with d less.prems show ?thesis
      by (subst update_loop.simps) simp
  next
    case True
    let ?ae = "consume_frame now d (a, elapsed)"
    from less.prems have fc: "frame_count a \<noteq> 0"
      by (simp add: playable_def)
    from d True have "unat (snd ?ae) < unat elapsed"
      by (intro consume_frame_elapsed)
    moreover have "playable (fst ?ae)"
      using less.prems by (rule consume_frame_playable)
    ultimately obtain a' where
      a': "update_loop now (fst ?ae, snd ?ae) = Some (Inr a')" "playable a'"
        "delays a' = delays (fst ?ae)" "frame_count a' = frame_count (fst ?ae)"
      using less.hyps [of "snd ?ae" "fst ?ae"] by blast
    have step: "update_loop now (a, elapsed) = update_loop now ?ae"
      using d True fc by (subst update_loop.simps) simp
    from a' consume_frame_playable(2,3) [OF less.prems, of now d elapsed] step
    show ?thesis
      by simp
  qed
qed

lemma playable_loaded:
  assumes ok: "load_gif (Slurped gif) ticks = Inr (Some a)"
    and fc: "1 \<le> frame_count a"
  shows "playable a"
proof -
  from ok obtain st where
    run: "for_loop [0..<length (SavedImages gif)] (load_frame gif) (initial_state gif ticks) = Inr st"
    and a: "a = animation st"
    by (auto simp: load_gif_Some)
  from load_frames_fields [OF run] a
  have cnt: "frame_count a = int (length (SavedImages gif))" and cur: "current_frame a = 0"
    by (simp_all add: initial_state_def ImageCount_def)
  have len: "length (delays a) = length (SavedImages gif)"
    using ok by (rule load_gif_stored_delays(1))
  have "stored_delay_ok (delays a ! i)" if "i < length (delays a)" for i
  proof -
    from that len have i: "i < length (SavedImages gif)" by simp
    from load_gif_stored_delays(3) [OF ok i]
    obtain d where d: "frame_delay (ExtensionGCB (SavedImages gif ! i)) = Inr d"
      by blast
    then have "10 \<le> d \<and> d < 2 ^ 32"
      by (rule frame_delay_bounds)
    with load_gif_stored_delays(2) [OF ok i d] show ?thesis
      by (simp add: stored_delay_ok_def)
  qed
  then have "list_all stored_delay_ok (delays a)"
    by (simp add: list_all_length)
  with fc cnt cur len show ?thesis
    by (auto simp: playable_def)
qed

text \<open>A run of the loop: 993 milliseconds went by since the last update.\<close>

lemma update_example:
  "update_gif keep_then_clear_animation 1000 =
     Some (Inr (keep_then_clear_animation\<lparr>current_frame := 1, last_update := 957\<rparr>))"
  by (simp add: update_gif_def keep_then_clear_animation_def update_loop.simps current_delay_def
      consume_frame_def c_rem_def Let_def)

section \<open>Frame durations\<close>

text \<open>
  Claim C8. After a load that returns an animation, the delay stored for frame \<open>i\<close> is
  \<open>DelayTime * 10\<close> milliseconds when the frame's \<open>DelayTime\<close> is positive and \<open>100\<close>
  milliseconds otherwise; it is never \<open>0\<close>. This holds for every saved image, also for one
  that is skipped for want of a color map.
\<close>

theorem load_gif_delay:
  assumes "load_gif (Slurped gif) ticks = Inr (Some a)"
    and "i < length (SavedImages gif)"
  shows "delays a ! i =
           Some (if DelayTime (ExtensionGCB (SavedImages gif ! i)) > 0
                 then DelayTime (ExtensionGCB (SavedImages gif ! i)) * 10 else 100) \<and>
         delays a ! i \<noteq> Some 0"
proof -
  from load_gif_stored_delays(3) [OF assms]
  obtain d where d: "frame_delay (ExtensionGCB (SavedImages gif ! i)) = Inr d"
    by blast
  from load_gif_stored_delays(2) [OF assms d] d show ?thesis
    by (simp add: frame_delay_Inr)
qed

theorem load_gif_delay_witness:
  "load_gif (Slurped keep_then_clear_gif) 7 = Inr (Some keep_then_clear_animation) \<and>
   1 < length (SavedImages keep_then_clear_gif) \<and>
   DelayTime (ExtensionGCB (SavedImages keep_then_clear_gif ! 1)) = 0 \<and>
   delays keep_then_clear_animation ! 1 = Some 100 \<and>
   delays keep_then_clear_animation ! 1 \<noteq> Some 0"
proof -
  have i: "1 < length (SavedImages keep_then_clear_gif)"
    by (simp add: keep_then_clear_gif_def)
  have d: "DelayTime (ExtensionGCB (SavedImages keep_then_clear_gif ! 1)) = 0"
    by (simp add: keep_then_clear_gif_def)
  from load_gif_delay [OF keep_then_clear_loads i]
  have "delays keep_then_clear_animation ! 1 = Some 100 \<and>
        delays keep_then_clear_animation ! 1 \<noteq> Some 0"
    unfolding d by simp
  with keep_then_clear_loads i d show ?thesis
    by blast
qed

section \<open>The color map of a frame\<close>

text \<open>
  Claim C1 says that a frame's local color table overrides the global one. Line 52 tests
  the global table first. In \<open>both_tables_gif\<close> the frame has the local table
  \<open>[green, green]\<close>, yet the table selected is the global \<open>[red, blue]\<close> and the pixel
  of index \<open>0\<close> comes out red.
\<close>

theorem local_table_overridden:
  "ColorMap (ImageDesc (SavedImages both_tables_gif ! 0)) = Some \<lparr>Colors = [green, green]\<rparr> \<and>
   select_color_map both_tables_gif (SavedImages both_tables_gif ! 0) =
     Some \<lparr>Colors = [red, blue]\<rparr> \<and>
   load_gif (Slurped both_tables_gif) 0 =
     Inr (Some \<lparr>frames = [Some \<lparr>surf_w = 1, surf_h = 1, surf_pixels = [RGBA 255 0 0 255]\<rparr>],
                delays = [Some 100], frame_count = 1, current_frame = 0, last_update = 0,
                width = 1, height = 1\<rparr>)"
  by (simp add: both_tables_gif_def eval_simps)

text \<open>
  Claim C1, amended. The color map of a frame is the global table when there is one, and
  the frame's local table only when there is no global table. With a global table the
  local table of a frame has no effect on what the loop does for that frame.
\<close>

theorem select_color_map_global_first:
  "(SColorMap gif = Some g \<longrightarrow> select_color_map gif frame = Some g) \<and>
   (SColorMap gif = None \<longrightarrow> select_color_map gif frame = ColorMap (ImageDesc frame)) \<and>
   (SColorMap gif = Some g \<and> i < length (SavedImages gif) \<longrightarrow>
      load_frame
        (gif\<lparr>SavedImages := (SavedImages gif)
           [i := (SavedImages gif ! i)\<lparr>ImageDesc := (ImageDesc (SavedImages gif ! i))\<lparr>ColorMap := m\<rparr>\<rparr>]\<rparr>)
        i st = load_frame gif i st)"
  by (simp add: select_color_map_def load_frame_def draw_image_def draw_pixel_ignores_local_map
      Let_def cong: sum.case_cong)

theorem select_color_map_global_first_witness:
  "SColorMap both_tables_gif = Some \<lparr>Colors = [red, blue]\<rparr> \<and>
   select_color_map both_tables_gif (SavedImages both_tables_gif ! 0) =
     Some \<lparr>Colors = [red, blue]\<rparr> \<and>
   SColorMap no_table_gif = None \<and>
   select_color_map no_table_gif (SavedImages no_table_gif ! 1) = Some \<lparr>Colors = [green]\<rparr>"
  using select_color_map_global_first [of both_tables_gif "\<lparr>Colors = [red, blue]\<rparr>"
      "SavedImages both_tables_gif ! 0" 0 None "initial_state both_tables_gif 0"]
    select_color_map_global_first [of no_table_gif "\<lparr>Colors = [green]\<rparr>"
      "SavedImages no_table_gif ! 1" 1 None "initial_state no_table_gif 0"]
  by (simp add: both_tables_gif_def no_table_gif_def)

text \<open>
  Claim C5 says that loading fails when a frame has neither a local nor a global color
  table. In \<open>no_table_gif\<close> the first frame has neither: the load returns an animation, the
  first slot of \<open>frames\<close> is never assigned, and the second frame is drawn.
\<close>

theorem missing_table_does_not_fail:
  "select_color_map no_table_gif (SavedImages no_table_gif ! 0) = None \<and>
   load_gif (Slurped no_table_gif) 0 =
     Inr (Some \<lparr>frames = [None, Some \<lparr>surf_w = 1, surf_h = 1, surf_pixels = [RGBA 0 255 0 255]\<rparr>],
                delays = [Some 30, Some 100], frame_count = 2, current_frame = 0, last_update = 0,
                width = 1, height = 1\<rparr>)"
  using no_table_loads
  by (simp add: no_table_gif_def select_color_map_def)

text \<open>
  Claim C5, amended. A frame with neither table is skipped, not fatal: the iteration
  (lines 53 to 56) only records the frame's delay \<open>d\<close> and goes on to the next frame, leaving the
  frame's slot of \<open>frames\<close> and the base surface as they were; \<open>load_gif\<close> does not return
  \<open>NULL\<close>, and in the animation it returns the slot holds no texture.
\<close>

theorem missing_table_skips_frame:
  assumes "SColorMap gif = None"
    and "ColorMap (ImageDesc (SavedImages gif ! i)) = None"
    and "i < length (SavedImages gif)"
    and "frame_delay (ExtensionGCB (SavedImages gif ! i)) = Inr d"
  shows "load_frame gif i st =
           Inr (st\<lparr>animation := (animation st)
                  \<lparr>delays := (delays (animation st))[i := Some d]\<rparr>\<rparr>) \<and>
         load_gif (Slurped gif) ticks \<noteq> Inr None \<and>
         (\<forall>a. load_gif (Slurped gif) ticks = Inr (Some a) \<longrightarrow>
            frames a ! i = None \<and> delays a ! i = Some d)"
proof (intro conjI allI impI)
  from assms(1,2) have none: "select_color_map gif (SavedImages gif ! i) = None"
    by (simp add: select_color_map_def)
  then show "load_frame gif i st =
           Inr (st\<lparr>animation := (animation st)
                  \<lparr>delays := (delays (animation st))[i := Some d]\<rparr>\<rparr>)"
    using assms(4) by (rule load_frame_skip)
  from assms(3) show "load_gif (Slurped gif) ticks \<noteq> Inr None"
    by (rule load_gif_images)
  fix a
  assume ok: "load_gif (Slurped gif) ticks = Inr (Some a)"
  then obtain st where
    run: "for_loop [0..<length (SavedImages gif)] (load_frame gif) (initial_state gif ticks) = Inr st"
    and a: "a = animation st"
    by (auto simp: load_gif_Some)
  from load_frames_skipped_slot [OF run none] a assms(3)
  show "frames a ! i = None"
    by (simp add: initial_state_def)
  from load_gif_stored_delays(2) [OF ok assms(3,4)]
  show "delays a ! i = Some d" .
qed

theorem missing_table_skips_frame_witness:
  "SColorMap no_table_gif = None \<and>
   ColorMap (ImageDesc (SavedImages no_table_gif ! 0)) = None \<and>
   0 < length (SavedImages no_table_gif) \<and>
   frame_delay (ExtensionGCB (SavedImages no_table_gif ! 0)) = Inr 30 \<and>
   load_gif (Slurped no_table_gif) 0 \<noteq> Inr None \<and>
   (\<exists>a. load_gif (Slurped no_table_gif) 0 = Inr (Some a) \<and> frames a ! 0 = None \<and>
        delays a ! 0 = Some 30)"
proof -
  have h1: "SColorMap no_table_gif = None"
    and h2: "ColorMap (ImageDesc (SavedImages no_table_gif ! 0)) = None"
    and h3: "0 < length (SavedImages no_table_gif)"
    by (simp_all add: no_table_gif_def)
  have d: "frame_delay (ExtensionGCB (SavedImages no_table_gif ! 0)) = Inr 30"
    by (simp add: no_table_gif_def frame_delay_def int_mul_def INT_MAX_def)
  from missing_table_skips_frame [OF h1 h2 h3 d, of "initial_state no_table_gif 0" 0]
  have "load_gif (Slurped no_table_gif) 0 \<noteq> Inr None"
    and "\<forall>a. load_gif (Slurped no_table_gif) 0 = Inr (Some a) \<longrightarrow>
            frames a ! 0 = None \<and> delays a ! 0 = Some 30"
    by simp_all
  with no_table_loads h1 h2 h3 d show ?thesis
    by blast
qed

section \<open>The number of frames\<close>

text \<open>
  Claim C6. A load that returns an animation returns one of at least one frame:
  \<open>frame_count\<close> is at least \<open>1\<close> and counts the slots of \<open>frames\<close> and of \<open>delays\<close>. A
  file without an image makes \<open>load_gif\<close> return \<open>NULL\<close>, not an animation of
  \<open>frame_count = 0\<close>. \<open>load_gif\<close> has no test of \<open>ImageCount\<close> of its own: the failure is
  the one that \<open>DGifSlurp\<close> reports for such a file, which line 28 turns into \<open>NULL\<close>.
\<close>

theorem load_gif_frame_count:
  "(load_gif src ticks = Inr (Some a) \<longrightarrow>
      1 \<le> frame_count a \<and> frames a \<noteq> [] \<and>
      int (length (frames a)) = frame_count a \<and> length (delays a) = length (frames a)) \<and>
   (SavedImages gif = [] \<longrightarrow> load_gif (Slurped gif) ticks = Inr None)"
proof (intro conjI impI)
  assume ok: "load_gif src ticks = Inr (Some a)"
  then obtain g st where src: "src = Slurped g" and ne: "SavedImages g \<noteq> []"
    and run: "for_loop [0..<length (SavedImages g)] (load_frame g) (initial_state g ticks) = Inr st"
    and a: "a = animation st"
    by (auto simp: load_gif_Some)
  from load_frames_fields [OF run] a
  have fc: "frame_count a = int (length (SavedImages g))"
    and fr: "length (frames a) = length (SavedImages g)"
    by (simp_all add: initial_state_def ImageCount_def)
  from ok src have dl: "length (delays a) = length (SavedImages g)"
    by (simp add: load_gif_stored_delays(1))
  from fc ne show "1 \<le> frame_count a"
    by (cases "SavedImages g") simp_all
  from fr ne show "frames a \<noteq> []" by auto
  from fc fr show "int (length (frames a)) = frame_count a" by simp
  from dl fr show "length (delays a) = length (frames a)" by simp
next
  assume "SavedImages gif = []"
  then show "load_gif (Slurped gif) ticks = Inr None"
    by (simp add: load_gif_NULL DGifSlurp_def ImageCount_def)
qed

theorem load_gif_frame_count_witness:
  "load_gif (Slurped keep_then_clear_gif) 7 = Inr (Some keep_then_clear_animation) \<and>
   1 \<le> frame_count keep_then_clear_animation \<and>
   frames keep_then_clear_animation \<noteq> [] \<and>
   SavedImages empty_gif = [] \<and>
   load_gif (Slurped empty_gif) 0 = Inr None"
proof -
  have e: "SavedImages empty_gif = []"
    by (simp add: empty_gif_def)
  from load_gif_frame_count [of "Slurped keep_then_clear_gif" 7 keep_then_clear_animation empty_gif]
    keep_then_clear_loads e
  have "1 \<le> frame_count keep_then_clear_animation \<and> frames keep_then_clear_animation \<noteq> []"
    by blast
  moreover from load_gif_frame_count [of "Slurped empty_gif" 0 keep_then_clear_animation empty_gif] e
  have "load_gif (Slurped empty_gif) 0 = Inr None"
    by blast
  ultimately show ?thesis
    using keep_then_clear_loads e by blast
qed

section \<open>Palette indices outside the color map\<close>




section \<open>Transparent pixels\<close>

text \<open>
  Claim C7. A raster pixel whose index is the transparent index leaves the frame surface
  as it is (line 72). Hence, when the raster has \<open>Width * Height\<close> entries and all of them
  are the transparent index, drawing the frame changes nothing, and the texture stored for
  the frame is the surface as it was before the drawing loop.
\<close>

theorem transparent_index_leaves_surface:
  "(0 \<le> y * Width (ImageDesc frame) + x \<and>
    y * Width (ImageDesc frame) + x < int (length (RasterBits frame)) \<and>
    uint (RasterBits frame ! nat (y * Width (ImageDesc frame) + x)) = TransparentColor gcb \<longrightarrow>
      draw_pixel color_map frame gcb y x frame_surface = Inr frame_surface) \<and>
   (length (RasterBits frame) = nat (Width (ImageDesc frame) * Height (ImageDesc frame)) \<and>
    (\<forall>b \<in> set (RasterBits frame). uint b = TransparentColor gcb) \<longrightarrow>
      draw_image color_map frame gcb frame_surface = Inr frame_surface \<and>
      (SavedImages gif ! i = frame \<and> ExtensionGCB frame = gcb \<and>
       frame_delay gcb = Inr d \<and> select_color_map gif frame = Some color_map \<longrightarrow>
         (\<exists>st'. load_frame gif i st = Inr st' \<and>
            frames (animation st') =
              (frames (animation st))
                [i := Some (new_frame_surface (width (animation st)) (height (animation st)) i gcb
                              (base_surface st))])))"
proof (intro conjI impI)
  assume "0 \<le> y * Width (ImageDesc frame) + x \<and>
    y * Width (ImageDesc frame) + x < int (length (RasterBits frame)) \<and>
    uint (RasterBits frame ! nat (y * Width (ImageDesc frame) + x)) = TransparentColor gcb"
  then show "draw_pixel color_map frame gcb y x frame_surface = Inr frame_surface"
    by (intro draw_pixel_transparent) simp_all
next
  assume h: "length (RasterBits frame) = nat (Width (ImageDesc frame) * Height (ImageDesc frame)) \<and>
    (\<forall>b \<in> set (RasterBits frame). uint b = TransparentColor gcb)"
  then show "draw_image color_map frame gcb frame_surface = Inr frame_surface"
    by (intro draw_image_all_transparent) simp_all
  assume "SavedImages gif ! i = frame \<and> ExtensionGCB frame = gcb \<and>
       frame_delay gcb = Inr d \<and> select_color_map gif frame = Some color_map"
  moreover from h have "\<And>fs. draw_image color_map frame gcb fs = Inr fs"
    by (intro draw_image_all_transparent) simp_all
  ultimately show "\<exists>st'. load_frame gif i st = Inr st' \<and>
            frames (animation st') =
              (frames (animation st))
                [i := Some (new_frame_surface (width (animation st)) (height (animation st)) i gcb
                              (base_surface st))]"
    by (simp add: load_frame_def Let_def)
qed

theorem transparent_index_leaves_surface_witness:
  "draw_pixel \<lparr>Colors = [red, blue]\<rparr> (SavedImages keep_then_clear_gif ! 1)
      (ExtensionGCB (SavedImages keep_then_clear_gif ! 1)) 0 1
      \<lparr>surf_w = 2, surf_h = 1, surf_pixels = [RGBA 255 0 0 255, RGBA 0 0 255 255]\<rparr> =
     Inr \<lparr>surf_w = 2, surf_h = 1, surf_pixels = [RGBA 255 0 0 255, RGBA 0 0 255 255]\<rparr> \<and>
   draw_image \<lparr>Colors = [red, blue]\<rparr> (SavedImages keep_then_clear_gif ! 1)
      (ExtensionGCB (SavedImages keep_then_clear_gif ! 1))
      \<lparr>surf_w = 2, surf_h = 1, surf_pixels = [RGBA 255 0 0 255, RGBA 0 0 255 255]\<rparr> =
     Inr \<lparr>surf_w = 2, surf_h = 1, surf_pixels = [RGBA 255 0 0 255, RGBA 0 0 255 255]\<rparr> \<and>
   (\<exists>st'. load_frame keep_then_clear_gif 1 (initial_state keep_then_clear_gif 7) = Inr st' \<and>
      frames (animation st') = [None, Some \<lparr>surf_w = 2, surf_h = 1, surf_pixels = [RGBA 0 0 0 0, RGBA 0 0 0 0]\<rparr>])"
  using transparent_index_leaves_surface [of 0 "SavedImages keep_then_clear_gif ! 1" 1
      "ExtensionGCB (SavedImages keep_then_clear_gif ! 1)" "\<lparr>Colors = [red, blue]\<rparr>"
      "\<lparr>surf_w = 2, surf_h = 1, surf_pixels = [RGBA 255 0 0 255, RGBA 0 0 255 255]\<rparr>"
      keep_then_clear_gif 1 100 "initial_state keep_then_clear_gif 7"]
  by (simp add: keep_then_clear_gif_def initial_state_def select_color_map_def new_frame_surface_def
      frame_delay_def
      SDL_FillRect_def SDL_CreateRGBSurfaceWithFormat_def DISPOSE_DO_NOT_def replicate_numeral
      list_update_Cons_numeral)

section \<open>Clipping\<close>

text \<open>
  Claim C9 says that every store of the drawing loop goes to a position of the logical
  screen, that a pixel whose target lies outside is skipped, and that no store leaves the
  pixel array. The test of line 77 does keep the targets on the screen, as
  \<open>writes_stay_on_screen\<close> shows. But line 80 computes the index of the store as
  \<open>ty * pitch / 4 + tx\<close> in \<open>int\<close>, and \<open>pitch\<close> counts bytes. On a screen of 65535 by
  8194 pixels the pixel of a frame at row 8193 passes the test of line 77, and the product
  \<open>8193 * 262140 = 2147713020\<close> is more than \<open>INT_MAX\<close>: the index of the store is
  undefined, and so is what \<open>load_gif\<close> does with this file.
\<close>

theorem tall_screen_store_overflows:
  "pixel_to_write \<lparr>Colors = [red, blue]\<rparr> (SavedImages tall_screen_gif ! 0)
      (ExtensionGCB (SavedImages tall_screen_gif ! 0))
      (SDL_CreateRGBSurfaceWithFormat 65535 8194) 0 0 = Inr (Some (0, 8193, RGBA 255 0 0 255)) \<and>
   8193 * pitch (SDL_CreateRGBSurfaceWithFormat 65535 8194) = 2147713020 \<and>
   INT_MAX < 8193 * pitch (SDL_CreateRGBSurfaceWithFormat 65535 8194) \<and>
   store_pixel (SDL_CreateRGBSurfaceWithFormat 65535 8194) 0 8193 (RGBA 255 0 0 255) =
     Inl SignedOverflow \<and>
   load_gif (Slurped tall_screen_gif) 0 = Inl SignedOverflow"
  by (simp add: tall_screen_gif_def load_defs upto.simps upt_rec Let_def red_def)

section \<open>Disposal\<close>

text \<open>
  Claim C2 says that the previous frame's disposal mode decides whether a frame is drawn
  on the accumulated canvas, and that the canvas is left as it is when that mode was
  \<open>DoNotDispose\<close> or \<open>None\<close>. Line 64 tests the mode of the frame being drawn. In
  \<open>keep_then_clear_gif\<close> the first frame has mode \<open>DISPOSE_DO_NOT\<close> and leaves red and
  blue on the base surface; the second frame, of mode \<open>0\<close>, is nevertheless drawn on a
  fully transparent surface.
\<close>

theorem previous_mode_does_not_decide:
  "load_frame keep_then_clear_gif 0 (initial_state keep_then_clear_gif 7) = Inr after_first_frame \<and>
   DisposalMode (ExtensionGCB (SavedImages keep_then_clear_gif ! 0)) = DISPOSE_DO_NOT \<and>
   base_surface after_first_frame =
     \<lparr>surf_w = 2, surf_h = 1, surf_pixels = [RGBA 255 0 0 255, RGBA 0 0 255 255]\<rparr> \<and>
   new_frame_surface (width (animation after_first_frame)) (height (animation after_first_frame)) 1
       (ExtensionGCB (SavedImages keep_then_clear_gif ! 1)) (base_surface after_first_frame) =
     \<lparr>surf_w = 2, surf_h = 1, surf_pixels = [RGBA 0 0 0 0, RGBA 0 0 0 0]\<rparr> \<and>
   new_frame_surface (width (animation after_first_frame)) (height (animation after_first_frame)) 1
       (ExtensionGCB (SavedImages keep_then_clear_gif ! 1)) (base_surface after_first_frame) \<noteq>
     base_surface after_first_frame"
  using keep_then_clear_first_frame
  by (simp add: keep_then_clear_gif_def after_first_frame_def new_frame_surface_def
      SDL_FillRect_def SDL_CreateRGBSurfaceWithFormat_def DISPOSE_DO_NOT_def replicate_numeral)

text \<open>
  Claim C2, amended. For every frame, whether it is drawn on top of the accumulated base
  surface is decided by the frame's own disposal mode: a frame after the first whose mode
  is \<open>DISPOSE_DO_NOT\<close> is drawn on a copy of the base surface; every other frame, and the
  first frame always, is drawn on a fully transparent surface of the screen's size. A
  frame whose own mode is not \<open>DISPOSE_DO_NOT\<close> leaves the base surface as it was.
\<close>

theorem canvas_decided_by_own_mode:
  assumes "for_loop [0..<i] (load_frame gif) (initial_state gif ticks) = Inr st"
  shows "new_frame_surface (width (animation st)) (height (animation st)) i
             (ExtensionGCB (SavedImages gif ! i)) (base_surface st) =
           (if 0 < i \<and> DisposalMode (ExtensionGCB (SavedImages gif ! i)) = DISPOSE_DO_NOT
            then base_surface st
            else \<lparr>surf_w = SWidth gif, surf_h = SHeight gif,
                  surf_pixels = replicate (nat (SWidth gif * SHeight gif)) (RGBA 0 0 0 0)\<rparr>) \<and>
         (\<forall>st'. load_frame gif i st = Inr st' \<and>
                DisposalMode (ExtensionGCB (SavedImages gif ! i)) \<noteq> DISPOSE_DO_NOT \<longrightarrow>
                base_surface st' = base_surface st)"
proof -
  from assms have "loading gif st"
    by (rule loading_frames)
  then have "width (animation st) = SWidth gif" "height (animation st) = SHeight gif"
    "canvas (SWidth gif) (SHeight gif) (base_surface st)"
    by (simp_all add: loading_def)
  then have "new_frame_surface (width (animation st)) (height (animation st)) i
             (ExtensionGCB (SavedImages gif ! i)) (base_surface st) =
           (if 0 < i \<and> DisposalMode (ExtensionGCB (SavedImages gif ! i)) = DISPOSE_DO_NOT
            then base_surface st
            else \<lparr>surf_w = SWidth gif, surf_h = SHeight gif,
                  surf_pixels = replicate (nat (SWidth gif * SHeight gif)) (RGBA 0 0 0 0)\<rparr>)"
    by (simp add: new_frame_surface_canvas SDL_CreateRGBSurfaceWithFormat_def)
  then show ?thesis
    by (auto dest: load_frame_base_kept)
qed

theorem canvas_decided_by_own_mode_witness:
  "for_loop [0..<1] (load_frame keep_then_clear_gif) (initial_state keep_then_clear_gif 7) =
     Inr after_first_frame \<and>
   DisposalMode (ExtensionGCB (SavedImages keep_then_clear_gif ! 1)) \<noteq> DISPOSE_DO_NOT \<and>
   new_frame_surface (width (animation after_first_frame)) (height (animation after_first_frame)) 1
       (ExtensionGCB (SavedImages keep_then_clear_gif ! 1)) (base_surface after_first_frame) =
     \<lparr>surf_w = 2, surf_h = 1, surf_pixels = [RGBA 0 0 0 0, RGBA 0 0 0 0]\<rparr>"
proof -
  have run: "for_loop [0..<1] (load_frame keep_then_clear_gif) (initial_state keep_then_clear_gif 7) =
     Inr after_first_frame"
    using keep_then_clear_first_frame by (simp add: upt_rec)
  have m: "DisposalMode (ExtensionGCB (SavedImages keep_then_clear_gif ! 1)) \<noteq> DISPOSE_DO_NOT"
    by (simp add: keep_then_clear_gif_def DISPOSE_DO_NOT_def)
  have r: "replicate (nat (SWidth keep_then_clear_gif * SHeight keep_then_clear_gif)) (RGBA 0 0 0 0) =
      [RGBA 0 0 0 0, RGBA 0 0 0 0]"
    by (simp add: keep_then_clear_gif_def replicate_numeral)
  from canvas_decided_by_own_mode [OF run] m
  have "new_frame_surface (width (animation after_first_frame)) (height (animation after_first_frame)) 1
       (ExtensionGCB (SavedImages keep_then_clear_gif ! 1)) (base_surface after_first_frame) =
     \<lparr>surf_w = 2, surf_h = 1, surf_pixels = [RGBA 0 0 0 0, RGBA 0 0 0 0]\<rparr>"
    unfolding r by (simp add: keep_then_clear_gif_def)
  with run m show ?thesis
    by blast
qed

text \<open>
  Claim C3. In an animation of two frames whose first frame has the disposal mode
  \<open>RestoreToBackground\<close>, the surface on which the second frame is drawn is fully
  transparent. This holds whatever the rectangle of the first frame and whatever the mode
  of the second: a frame of mode \<open>DISPOSE_BACKGROUND\<close> is never copied to the base surface.
\<close>

theorem restore_to_background_clears_canvas:
  assumes "SavedImages gif = [f1, f2]"
    and "DisposalMode (ExtensionGCB f1) = DISPOSE_BACKGROUND"
    and "load_frame gif 0 (initial_state gif ticks) = Inr st"
  shows "new_frame_surface (width (animation st)) (height (animation st)) 1 (ExtensionGCB f2)
           (base_surface st) =
         \<lparr>surf_w = SWidth gif, surf_h = SHeight gif,
          surf_pixels = replicate (nat (SWidth gif * SHeight gif)) (RGBA 0 0 0 0)\<rparr>"
proof -
  from assms(1,2) have "DisposalMode (ExtensionGCB (SavedImages gif ! 0)) \<noteq> DISPOSE_DO_NOT"
    by (simp add: DISPOSE_BACKGROUND_def DISPOSE_DO_NOT_def)
  with assms(3) have "base_surface st = base_surface (initial_state gif ticks)"
    by (rule load_frame_base_kept)
  then have base: "base_surface st = SDL_CreateRGBSurfaceWithFormat (SWidth gif) (SHeight gif)"
    by (simp add: initial_state_def)
  from load_frame_animation(4,5) [OF assms(3)]
  have "width (animation st) = SWidth gif" "height (animation st) = SHeight gif"
    by (simp_all add: initial_state_def)
  moreover have "new_frame_surface (SWidth gif) (SHeight gif) 1 (ExtensionGCB f2)
      (SDL_CreateRGBSurfaceWithFormat (SWidth gif) (SHeight gif)) =
    SDL_CreateRGBSurfaceWithFormat (SWidth gif) (SHeight gif)"
    by (simp add: new_frame_surface_canvas canvas_blank)
  ultimately show ?thesis
    using base by (simp add: SDL_CreateRGBSurfaceWithFormat_def)
qed

theorem restore_to_background_clears_canvas_witness:
  "SavedImages restore_gif =
     [SavedImages restore_gif ! 0, SavedImages restore_gif ! 1] \<and>
   DisposalMode (ExtensionGCB (SavedImages restore_gif ! 0)) = DISPOSE_BACKGROUND \<and>
   load_frame restore_gif 0 (initial_state restore_gif 0) = Inr restore_after_first_frame \<and>
   new_frame_surface (width (animation restore_after_first_frame))
       (height (animation restore_after_first_frame)) 1
       (ExtensionGCB (SavedImages restore_gif ! 1)) (base_surface restore_after_first_frame) =
     \<lparr>surf_w = 2, surf_h = 1, surf_pixels = [RGBA 0 0 0 0, RGBA 0 0 0 0]\<rparr>"
proof -
  have h1: "SavedImages restore_gif = [SavedImages restore_gif ! 0, SavedImages restore_gif ! 1]"
    and h2: "DisposalMode (ExtensionGCB (SavedImages restore_gif ! 0)) = DISPOSE_BACKGROUND"
    by (simp_all add: restore_gif_def DISPOSE_BACKGROUND_def)
  have r: "replicate (nat (SWidth restore_gif * SHeight restore_gif)) (RGBA 0 0 0 0) =
      [RGBA 0 0 0 0, RGBA 0 0 0 0]"
    by (simp add: restore_gif_def replicate_numeral)
  from restore_to_background_clears_canvas [OF h1 h2 restore_first_frame]
  have "new_frame_surface (width (animation restore_after_first_frame))
       (height (animation restore_after_first_frame)) 1
       (ExtensionGCB (SavedImages restore_gif ! 1)) (base_surface restore_after_first_frame) =
     \<lparr>surf_w = 2, surf_h = 1, surf_pixels = [RGBA 0 0 0 0, RGBA 0 0 0 0]\<rparr>"
    unfolding r by (simp add: restore_gif_def)
  with h1 h2 restore_first_frame show ?thesis
    by blast
qed

section \<open>Playing the animation\<close>

text \<open>
  Claim C10. Let \<open>load_gif\<close> return an animation of at least one frame. Then every
  stored delay is at least 10 milliseconds. Hence each iteration of the loop of
  \<open>update_gif\<close> strictly decreases \<open>elapsed\<close>, and for every value of the clock the loop
  ends and leaves \<open>current_frame\<close> within \<open>0 \<le> current_frame < frame_count\<close>. This holds
  for the animation as loaded and after any number of updates, which change neither
  \<open>delays\<close> nor \<open>frame_count\<close>.
\<close>

theorem update_gif_terminates:
  assumes "load_gif (Slurped gif) ticks = Inr (Some a)"
    and "1 \<le> frame_count a"
  shows "(\<forall>i < length (delays a). \<exists>d. delays a ! i = Some d \<and> 10 \<le> d) \<and>
         (\<forall>b now elapsed d.
            delays b = delays a \<and> current_delay b = Inr d \<and> word_of_int d \<le> elapsed \<longrightarrow>
            snd (consume_frame now d (b, elapsed)) < elapsed) \<and>
         (\<forall>b now.
            delays b = delays a \<and> frame_count b = frame_count a \<and>
            0 \<le> current_frame b \<and> current_frame b < frame_count b \<longrightarrow>
            (\<exists>b'. update_gif b now = Some (Inr b') \<and>
                  delays b' = delays a \<and> frame_count b' = frame_count a \<and>
                  0 \<le> current_frame b' \<and> current_frame b' < frame_count b'))"
proof (intro conjI allI impI)
  from assms have pa: "playable a"
    by (rule playable_loaded)
  then have all: "list_all stored_delay_ok (delays a)"
    by (simp add: playable_def)
  {
    fix i
    assume "i < length (delays a)"
    with all have "stored_delay_ok (delays a ! i)"
      by (simp add: list_all_length)
    then show "\<exists>d. delays a ! i = Some d \<and> 10 \<le> d"
      by (auto simp: stored_delay_ok_def split: option.splits)
  next
    fix b :: GIFAnimation and now elapsed :: "32 word" and d
    assume h: "delays b = delays a \<and> current_delay b = Inr d \<and> word_of_int d \<le> elapsed"
    then have i: "nat (current_frame b) < length (delays a)" and
      r: "delays a ! nat (current_frame b) = Some d"
      by (auto simp: current_delay_def split: if_splits option.splits)
    with all have "stored_delay_ok (Some d)"
      by (auto simp: list_all_length)
    then have "10 \<le> d" "d < 2 ^ 32"
      by (simp_all add: stored_delay_ok_def)
    with h have "unat (snd (consume_frame now d (b, elapsed))) < unat elapsed"
      by (intro consume_frame_elapsed) simp_all
    then show "snd (consume_frame now d (b, elapsed)) < elapsed"
      by (simp add: word_less_nat_alt)
  next
    fix b :: GIFAnimation and now :: "32 word"
    assume h: "delays b = delays a \<and> frame_count b = frame_count a \<and>
            0 \<le> current_frame b \<and> current_frame b < frame_count b"
    with pa have "playable b"
      by (simp add: playable_def)
    from update_loop_returns [OF this, of now "now - last_update b"] h
    show "\<exists>b'. update_gif b now = Some (Inr b') \<and>
                  delays b' = delays a \<and> frame_count b' = frame_count a \<and>
                  0 \<le> current_frame b' \<and> current_frame b' < frame_count b'"
      by (auto simp: update_gif_def playable_def)
  }
qed

theorem update_gif_terminates_witness:
  "load_gif (Slurped keep_then_clear_gif) 7 = Inr (Some keep_then_clear_animation) \<and>
   1 \<le> frame_count keep_then_clear_animation \<and>
   (\<exists>d. delays keep_then_clear_animation ! 0 = Some d \<and> 10 \<le> d) \<and>
   current_delay keep_then_clear_animation = Inr 50 \<and>
   snd (consume_frame 1000 50 (keep_then_clear_animation, 993)) < 993 \<and>
   (\<exists>b'. update_gif keep_then_clear_animation 1000 = Some (Inr b') \<and>
         0 \<le> current_frame b' \<and> current_frame b' < frame_count b')"
proof -
  have fc: "1 \<le> frame_count keep_then_clear_animation"
    by (simp add: keep_then_clear_animation_def)
  have cd: "current_delay keep_then_clear_animation = Inr 50"
    by (simp add: current_delay_def keep_then_clear_animation_def)
  have le: "(word_of_int 50 :: 32 word) \<le> 993"
    by simp
  have cur: "0 \<le> current_frame keep_then_clear_animation \<and>
      current_frame keep_then_clear_animation < frame_count keep_then_clear_animation"
    by (simp add: keep_then_clear_animation_def)
  have len: "0 < length (delays keep_then_clear_animation)"
    by (simp add: keep_then_clear_animation_def)
  note t = update_gif_terminates [OF keep_then_clear_loads fc]
  from t len have c1: "\<exists>d. delays keep_then_clear_animation ! 0 = Some d \<and> 10 \<le> d"
    by blast
  from t cd le have c2: "snd (consume_frame 1000 50 (keep_then_clear_animation, 993)) < 993"
    by blast
  from t cur have "\<exists>b'. update_gif keep_then_clear_animation 1000 = Some (Inr b') \<and>
      delays b' = delays keep_then_clear_animation \<and>
      frame_count b' = frame_count keep_then_clear_animation \<and>
      0 \<le> current_frame b' \<and> current_frame b' < frame_count b'"
    by blast
  then have c3: "\<exists>b'. update_gif keep_then_clear_animation 1000 = Some (Inr b') \<and>
         0 \<le> current_frame b' \<and> current_frame b' < frame_count b'"
    by auto
  from keep_then_clear_loads fc c1 cd c2 c3 show ?thesis
    by blast
qed

end
